theory Spec2Isabelle
  imports Main
begin

section \<open>Library functions used by the program\<close>

subsection \<open>Package strings\<close>

text \<open>\<^verbatim>\<open>strings.Join(elems, sep)\<close>: the elements with \<open>sep\<close> between neighbours.\<close>

fun Join :: "string list \<Rightarrow> string \<Rightarrow> string" where
  "Join [] sep = []"
| "Join [a] sep = a"
| "Join (a # b # rest) sep = a @ sep @ Join (b # rest) sep"

text \<open>\<^verbatim>\<open>strings.HasPrefix\<close>, \<^verbatim>\<open>strings.HasSuffix\<close>: a length test and a slice comparison.\<close>

definition HasPrefix :: "string \<Rightarrow> string \<Rightarrow> bool" where
  "HasPrefix s pre = (length s \<ge> length pre \<and> take (length pre) s = pre)"

definition HasSuffix :: "string \<Rightarrow> string \<Rightarrow> bool" where
  "HasSuffix s suf = (length s \<ge> length suf \<and> drop (length s - length suf) s = suf)"

definition TrimPrefix :: "string \<Rightarrow> string \<Rightarrow> string" where
  "TrimPrefix s pre = (if HasPrefix s pre then drop (length pre) s else s)"

definition TrimSuffix :: "string \<Rightarrow> string \<Rightarrow> string" where
  "TrimSuffix s suf = (if HasSuffix s suf then take (length s - length suf) s else s)"

subsection \<open>Package go/ast: the syntax tree\<close>

text \<open>
  The part of the syntax tree that the program looks at. An identifier is its name. A
  field list is the list of its fields; \<open>None\<close> is a nil pointer. A value
  specification carries, before its names, type and values, the identity of its node
  (its address): two specifications with equal contents are still two nodes. Statements other than
  a declaration statement and expressions other than the three the program or the
  traversal tells apart are kept with their children only, in the order
  \<^verbatim>\<open>ast.Walk\<close> visits them.
\<close>

datatype token = token_IMPORT | token_CONST | token_TYPE | token_VAR

datatype expr =
    Ident string
  | StructType "field list"
  | FuncLit "field list" "field list option" "stmt list"
  | OtherExpr "expr list"
and field = Field (Names: "string list") (FieldType: "expr option")
and stmt =
    DeclStmt gen_decl
  | OtherStmt "child list"
and child = ChildExpr expr | ChildStmt stmt
and gen_decl = GenDecl (Tok: token) (Specs: "spec list")
and spec =
    ImportSpec string
  | ValueSpec nat "string list" "expr option" "expr list"
  | TypeSpec string expr

record func_type =
  Params :: "field list"
  Results :: "field list option"

record func_decl =
  Recv :: "field list option"
  Name :: string
  Type :: func_type
  Body :: "stmt list option"

datatype decl = FuncDecl func_decl | GenDeclD gen_decl | BadDecl

record ast_file =
  PkgName :: string
  Decls :: "decl list"

text \<open>
  The visitor of \<^verbatim>\<open>parseFile\<close> switches on the dynamic type of the node: a function
  declaration, a general declaration, or anything else.
\<close>

datatype node = FuncDeclNode func_decl | GenDeclNode gen_decl | OtherNode

subsection \<open>Package go/ast: the traversal\<close>

text \<open>
  \<^verbatim>\<open>ast.Inspect(file, f)\<close> calls \<open>f\<close> on every node in depth-first order, a node
  before its children, and descends as long as \<open>f\<close> returns true (the visitor of
  \<^verbatim>\<open>parseFile\<close> always does). The functions below list the nodes in the order of
  those calls. The closing calls \<open>f(nil)\<close> after the children of a node, and the
  nodes the tree above does not keep (comment groups, field tags, type parameters),
  match no case of the visitor's switch and are left out.
\<close>

fun inspect_expr :: "expr \<Rightarrow> node list"
  and inspect_field :: "field \<Rightarrow> node list"
  and inspect_stmt :: "stmt \<Rightarrow> node list"
  and inspect_child :: "child \<Rightarrow> node list"
  and inspect_gen_decl :: "gen_decl \<Rightarrow> node list"
  and inspect_spec :: "spec \<Rightarrow> node list"
where
  "inspect_expr (Ident x) = [OtherNode]"
| "inspect_expr (StructType fs) = OtherNode # OtherNode # concat (map inspect_field fs)"
| "inspect_expr (FuncLit ps rs body) =
     OtherNode # OtherNode # (OtherNode # concat (map inspect_field ps))
       @ (case rs of None \<Rightarrow> [] | Some r \<Rightarrow> OtherNode # concat (map inspect_field r))
       @ (OtherNode # concat (map inspect_stmt body))"
| "inspect_expr (OtherExpr es) = OtherNode # concat (map inspect_expr es)"
| "inspect_field (Field names ty) =
     OtherNode # map (\<lambda>_. OtherNode) names
       @ (case ty of None \<Rightarrow> [] | Some t \<Rightarrow> inspect_expr t)"
| "inspect_stmt (DeclStmt d) = OtherNode # inspect_gen_decl d"
| "inspect_stmt (OtherStmt cs) = OtherNode # concat (map inspect_child cs)"
| "inspect_child (ChildExpr e) = inspect_expr e"
| "inspect_child (ChildStmt s) = inspect_stmt s"
| "inspect_gen_decl (GenDecl tok specs) =
     GenDeclNode (GenDecl tok specs) # concat (map inspect_spec specs)"
| "inspect_spec (ImportSpec p) = [OtherNode, OtherNode]"
| "inspect_spec (ValueSpec a names ty vals) =
     OtherNode # map (\<lambda>_. OtherNode) names
       @ (case ty of None \<Rightarrow> [] | Some t \<Rightarrow> inspect_expr t)
       @ concat (map inspect_expr vals)"
| "inspect_spec (TypeSpec name ty) = OtherNode # OtherNode # inspect_expr ty"

definition inspect_field_list :: "field list \<Rightarrow> node list" where
  "inspect_field_list fs = OtherNode # concat (map inspect_field fs)"

text \<open>A function declaration: the node itself, receiver, name, type, body.\<close>

fun inspect_decl :: "decl \<Rightarrow> node list" where
  "inspect_decl (FuncDecl fn) =
     FuncDeclNode fn
       # (case Recv fn of None \<Rightarrow> [] | Some r \<Rightarrow> inspect_field_list r)
       @ [OtherNode]
       @ (OtherNode # inspect_field_list (Params (Type fn))
            @ (case Results (Type fn) of None \<Rightarrow> [] | Some r \<Rightarrow> inspect_field_list r))
       @ (case Body fn of None \<Rightarrow> [] | Some b \<Rightarrow> OtherNode # concat (map inspect_stmt b))"
| "inspect_decl (GenDeclD d) = inspect_gen_decl d"
| "inspect_decl BadDecl = [OtherNode]"

definition Inspect :: "ast_file \<Rightarrow> node list" where
  "Inspect file = OtherNode # OtherNode # concat (map inspect_decl (Decls file))"

subsection \<open>Package fmt: the renderings that depend on the Go runtime\<close>

text \<open>
  \<^verbatim>\<open>fmt.Sprint(vs.Type)\<close> and \<^verbatim>\<open>fmt.Sprintf("%#v", vs.Values)\<close> print syntax-tree
  nodes by reflection: field values, source positions and pointers. Their text is not
  fixed by the program and may differ between two nodes with equal contents, so both
  renderings are parameters of the model, and they take the identity of the value
  specification besides the expressions.
\<close>

record fmt =
  Sprint :: "nat \<Rightarrow> expr \<Rightarrow> string"
  Sprintf_sharp_v :: "nat \<Rightarrow> expr list \<Rightarrow> string"

section \<open>The program\<close>

subsection \<open>Rendering\<close>

text \<open>\<^verbatim>\<open>getFunctionSignature\<close>: the two nested loops over the parameters append every
  parameter name; the loop over the results appends the name of every result type that
  is an identifier.\<close>

definition getFunctionSignature :: "func_decl \<Rightarrow> string" where
  "getFunctionSignature fn =
    (let funcName = Name fn;
         params = fold (\<lambda>param ps. fold (\<lambda>name ps. ps @ [name]) (Names param) ps)
                    (Params (Type fn)) [];
         results =
           (case Results (Type fn) of
              None \<Rightarrow> []
            | Some rl \<Rightarrow>
                fold (\<lambda>result rs.
                       (case FieldType result of
                          None \<Rightarrow> rs
                        | Some (Ident x) \<Rightarrow> rs @ [x]
                        | Some _ \<Rightarrow> rs)) rl [])
     in funcName @ ''('' @ Join params '', '' @ '') '' @ Join results '', '')"

text \<open>\<^verbatim>\<open>getStructDefinition\<close>, on the name and the field list of the struct type.\<close>

definition getStructDefinition :: "string \<Rightarrow> field list \<Rightarrow> string" where
  "getStructDefinition structName st =
    (let fields = fold (\<lambda>field fs. fold (\<lambda>name fs. fs @ [name]) (Names field) fs) st []
     in ''type '' @ structName @ '' struct { '' @ Join fields '', '' @ '' }'')"

definition removeTokenInfo :: "string \<Rightarrow> string" where
  "removeTokenInfo s = TrimPrefix (TrimSuffix s ''>'') ''%!s(''"

text \<open>\<^verbatim>\<open>getVariableDefinition\<close>, on the names, the type and the values of the value
  specification.\<close>

definition getVariableDefinition ::
  "fmt \<Rightarrow> nat \<Rightarrow> string list \<Rightarrow> expr option \<Rightarrow> expr list \<Rightarrow> string" where
  "getVariableDefinition F a names ty vals =
    (let variables = fold (\<lambda>name vs. vs @ [name]) names []
     in if length variables = 0 then ''''
        else
          (let typeStr = (case ty of None \<Rightarrow> '''' | Some t \<Rightarrow> removeTokenInfo (Sprint F a t));
               valueStr = (if length vals > 0 then Sprintf_sharp_v F a vals else '''')
           in ''var '' @ Join variables '', '' @ '' '' @ typeStr @ '' '' @ valueStr))"

subsection \<open>Emission\<close>

text \<open>
  The streams of the process. Every \<^verbatim>\<open>fmt.Printf\<close> and \<^verbatim>\<open>fmt.Println\<close> of the
  program appends one string, ending in a newline, to standard output.
\<close>

record streams =
  Stdout :: "string list"
  Stderr :: "string list"

text \<open>The state of one call of \<^verbatim>\<open>parseFile\<close>: the map \<^verbatim>\<open>processed\<close> and the
  streams.\<close>

record pstate =
  processed :: "string \<rightharpoonup> bool"
  io :: streams

text \<open>Reading a \<^verbatim>\<open>map[string]bool\<close>: a missing key reads as false.\<close>

definition lookup :: "(string \<rightharpoonup> bool) \<Rightarrow> string \<Rightarrow> bool" where
  "lookup m s = (case m s of None \<Rightarrow> False | Some b \<Rightarrow> b)"

definition Printf_line :: "string \<Rightarrow> string \<Rightarrow> string" where
  "Printf_line a b = a @ '': '' @ b @ ''\<newline>''"

definition print :: "string \<Rightarrow> streams \<Rightarrow> streams" where
  "print s w = w\<lparr>Stdout := Stdout w @ [s]\<rparr>"

definition processIfNotProcessed :: "string \<Rightarrow> string \<Rightarrow> pstate \<Rightarrow> pstate" where
  "processIfNotProcessed filename s st =
    (if \<not> lookup (processed st) s
     then st\<lparr>io := print (Printf_line filename s) (io st),
             processed := (processed st)(s \<mapsto> True)\<rparr>
     else st)"

text \<open>The visitor passed to \<^verbatim>\<open>ast.Inspect\<close>.\<close>

definition visit_type_spec :: "string \<Rightarrow> spec \<Rightarrow> pstate \<Rightarrow> pstate" where
  "visit_type_spec filename sp st =
    (case sp of
       TypeSpec name (StructType fl) \<Rightarrow>
         processIfNotProcessed filename (''struct '' @ getStructDefinition name fl) st
     | _ \<Rightarrow> st)"

definition visit_value_spec :: "fmt \<Rightarrow> string \<Rightarrow> spec \<Rightarrow> pstate \<Rightarrow> pstate" where
  "visit_value_spec F filename sp st =
    (case sp of
       ValueSpec a names ty vals \<Rightarrow>
         processIfNotProcessed filename (''var '' @ getVariableDefinition F a names ty vals) st
     | _ \<Rightarrow> st)"

definition visitor :: "fmt \<Rightarrow> string \<Rightarrow> node \<Rightarrow> pstate \<Rightarrow> pstate" where
  "visitor F filename n st =
    (case n of
       FuncDeclNode fn \<Rightarrow>
         processIfNotProcessed filename (''function '' @ getFunctionSignature fn) st
     | GenDeclNode d \<Rightarrow>
         (if Tok d = token_TYPE then fold (visit_type_spec filename) (Specs d) st
          else if Tok d = token_VAR then fold (visit_value_spec F filename) (Specs d) st
          else st)
     | OtherNode \<Rightarrow> st)"

text \<open>
  \<^verbatim>\<open>parseFile\<close>. The parser is a parameter: it gives the error text or the tree.
  The three slices declared at the top of the function are never appended to, so the
  three loops over them at the end run over empty slices.
\<close>

definition parseFile ::
  "(string \<Rightarrow> string + ast_file) \<Rightarrow> fmt \<Rightarrow> string \<Rightarrow> streams \<Rightarrow> streams" where
  "parseFile ParseFile F filename w =
    (case ParseFile filename of
       Inl err \<Rightarrow> print (Printf_line filename err) w
     | Inr file \<Rightarrow>
         (let functionSignatures = [];
              structDefinitions = [];
              variableDefinitions = [];
              st0 = \<lparr>processed = Map.empty, io = w\<rparr>;
              st1 = fold (visitor F filename) (Inspect file) st0;
              st2 = fold (processIfNotProcessed filename) structDefinitions st1;
              st3 = fold (processIfNotProcessed filename) variableDefinitions st2;
              st4 = fold (processIfNotProcessed filename) functionSignatures st3
          in io st4))"

subsection \<open>The walk\<close>

text \<open>
  \<^verbatim>\<open>filepath.Walk\<close> calls the function literal of \<^verbatim>\<open>run\<close> once per entry, with the
  path, the file information and an error; the walk is the list of those calls. The
  function literal always returns nil, so the walk visits every entry and returns nil
  itself: the \<^verbatim>\<open>fmt.Println\<close> after the walk never runs, and \<^verbatim>\<open>run\<close> returns nil.
\<close>

record walk_entry =
  path :: string
  info_Name :: string
  info_IsDir :: bool
  err :: "string option"

definition walk_fn ::
  "(string \<Rightarrow> string + ast_file) \<Rightarrow> fmt \<Rightarrow> walk_entry \<Rightarrow> streams \<Rightarrow> streams" where
  "walk_fn ParseFile F e w =
    (case err e of
       Some msg \<Rightarrow> print (msg @ ''\<newline>'') w
     | None \<Rightarrow>
         (if \<not> info_IsDir e \<and> HasSuffix (info_Name e) ''.go''
          then parseFile ParseFile F (path e) w
          else w))"

definition run ::
  "(string \<Rightarrow> string + ast_file) \<Rightarrow> fmt \<Rightarrow> walk_entry list \<Rightarrow> streams \<Rightarrow> streams" where
  "run ParseFile F entries w = fold (walk_fn ParseFile F) entries w"

section \<open>Notions used to state the properties\<close>

text \<open>
  The strings that the visitor hands to \<^verbatim>\<open>processIfNotProcessed\<close> at one node, in
  the order of the calls, and the sequence of all of them over the traversal of a file.
\<close>

text \<open>A list without the repetitions of its elements, every element at the place of its
  first occurrence.\<close>

primrec first_occurrences :: "'a list \<Rightarrow> 'a list" where
  "first_occurrences [] = []"
| "first_occurrences (x # xs) = x # filter (\<lambda>y. y \<noteq> x) (first_occurrences xs)"

definition type_spec_sigs :: "spec \<Rightarrow> string list" where
  "type_spec_sigs sp =
    (case sp of
       TypeSpec name (StructType fl) \<Rightarrow> [''struct '' @ getStructDefinition name fl]
     | _ \<Rightarrow> [])"

definition value_spec_sigs :: "fmt \<Rightarrow> spec \<Rightarrow> string list" where
  "value_spec_sigs F sp =
    (case sp of
       ValueSpec a names ty vals \<Rightarrow> [''var '' @ getVariableDefinition F a names ty vals]
     | _ \<Rightarrow> [])"

definition node_sigs :: "fmt \<Rightarrow> node \<Rightarrow> string list" where
  "node_sigs F n =
    (case n of
       FuncDeclNode fn \<Rightarrow> [''function '' @ getFunctionSignature fn]
     | GenDeclNode d \<Rightarrow>
         (if Tok d = token_TYPE then concat (map type_spec_sigs (Specs d))
          else if Tok d = token_VAR then concat (map (value_spec_sigs F) (Specs d))
          else [])
     | OtherNode \<Rightarrow> [])"

definition file_sigs :: "fmt \<Rightarrow> ast_file \<Rightarrow> string list" where
  "file_sigs F file = concat (map (node_sigs F) (Inspect file))"

text \<open>The streams before anything is written.\<close>

definition no_output :: streams where
  "no_output = \<lparr>Stdout = [], Stderr = []\<rparr>"

text \<open>The names a field list declares; the identifier result types of a function.\<close>

definition field_names :: "field list \<Rightarrow> string list" where
  "field_names fl = concat (map Names fl)"

definition param_names :: "func_decl \<Rightarrow> string list" where
  "param_names fn = field_names (Params (Type fn))"

definition result_type_name :: "field \<Rightarrow> string list" where
  "result_type_name r = (case FieldType r of Some (Ident x) \<Rightarrow> [x] | _ \<Rightarrow> [])"

definition result_names :: "func_decl \<Rightarrow> string list" where
  "result_names fn =
    (case Results (Type fn) of None \<Rightarrow> [] | Some rl \<Rightarrow> concat (map result_type_name rl))"

text \<open>A name free of the characters the renderer itself writes around names: Go
  identifiers (letters, digits, underscore) are such names.\<close>

definition plain_name :: "string \<Rightarrow> bool" where
  "plain_name s =
    (s \<noteq> [] \<and> CHR ''('' \<notin> set s \<and> CHR '')'' \<notin> set s \<and> CHR '','' \<notin> set s \<and> CHR '' '' \<notin> set s)"

text \<open>What one file, and one entry of the walk, append to standard output.\<close>

definition file_report :: "(string \<Rightarrow> string + ast_file) \<Rightarrow> fmt \<Rightarrow> string \<Rightarrow> string list" where
  "file_report ParseFile F filename = Stdout (parseFile ParseFile F filename no_output)"

definition entry_report :: "(string \<Rightarrow> string + ast_file) \<Rightarrow> fmt \<Rightarrow> walk_entry \<Rightarrow> string list" where
  "entry_report ParseFile F e = Stdout (walk_fn ParseFile F e no_output)"

text \<open>
  Where a general declaration stands in a tree: \<open>decl_in_stmt d s\<close> says that the
  declaration \<open>d\<close> is the statement \<open>s\<close> or lies below it, at any depth: in a block,
  in the branches of a statement, in the body of a function literal, in the type or the
  values of another declaration. \<open>declared_in d file\<close> says so of a file: \<open>d\<close> is a
  top-level declaration of the file or lies below one.
\<close>

fun decl_in_expr :: "gen_decl \<Rightarrow> expr \<Rightarrow> bool"
  and decl_in_field :: "gen_decl \<Rightarrow> field \<Rightarrow> bool"
  and decl_in_stmt :: "gen_decl \<Rightarrow> stmt \<Rightarrow> bool"
  and decl_in_child :: "gen_decl \<Rightarrow> child \<Rightarrow> bool"
  and decl_in_gen_decl :: "gen_decl \<Rightarrow> gen_decl \<Rightarrow> bool"
  and decl_in_spec :: "gen_decl \<Rightarrow> spec \<Rightarrow> bool"
where
  "decl_in_expr d (Ident x) = False"
| "decl_in_expr d (StructType fs) = list_ex (decl_in_field d) fs"
| "decl_in_expr d (FuncLit ps rs body) =
     (list_ex (decl_in_field d) ps
      \<or> (case rs of None \<Rightarrow> False | Some r \<Rightarrow> list_ex (decl_in_field d) r)
      \<or> list_ex (decl_in_stmt d) body)"
| "decl_in_expr d (OtherExpr es) = list_ex (decl_in_expr d) es"
| "decl_in_field d (Field names ty) =
     (case ty of None \<Rightarrow> False | Some t \<Rightarrow> decl_in_expr d t)"
| "decl_in_stmt d (DeclStmt g) = decl_in_gen_decl d g"
| "decl_in_stmt d (OtherStmt cs) = list_ex (decl_in_child d) cs"
| "decl_in_child d (ChildExpr e) = decl_in_expr d e"
| "decl_in_child d (ChildStmt s) = decl_in_stmt d s"
| "decl_in_gen_decl d (GenDecl tok specs) =
     (d = GenDecl tok specs \<or> list_ex (decl_in_spec d) specs)"
| "decl_in_spec d (ImportSpec p) = False"
| "decl_in_spec d (ValueSpec a names ty vals) =
     ((case ty of None \<Rightarrow> False | Some t \<Rightarrow> decl_in_expr d t)
      \<or> list_ex (decl_in_expr d) vals)"
| "decl_in_spec d (TypeSpec name ty) = decl_in_expr d ty"

fun decl_in_decl :: "gen_decl \<Rightarrow> decl \<Rightarrow> bool" where
  "decl_in_decl d (FuncDecl fn) =
     ((case Recv fn of None \<Rightarrow> False | Some r \<Rightarrow> list_ex (decl_in_field d) r)
      \<or> list_ex (decl_in_field d) (Params (Type fn))
      \<or> (case Results (Type fn) of None \<Rightarrow> False | Some r \<Rightarrow> list_ex (decl_in_field d) r)
      \<or> (case Body fn of None \<Rightarrow> False | Some b \<Rightarrow> list_ex (decl_in_stmt d) b))"
| "decl_in_decl d (GenDeclD g) = decl_in_gen_decl d g"
| "decl_in_decl d BadDecl = False"

definition declared_in :: "gen_decl \<Rightarrow> ast_file \<Rightarrow> bool" where
  "declared_in d file = list_ex (decl_in_decl d) (Decls file)"




text \<open>An entry of the walk that \<^verbatim>\<open>run\<close> hands to \<^verbatim>\<open>parseFile\<close>.\<close>

definition go_file_entry :: "walk_entry \<Rightarrow> bool" where
  "go_file_entry e = (err e = None \<and> \<not> info_IsDir e \<and> HasSuffix (info_Name e) ''.go'')"

text \<open>
  The declarations the report is about, one per line of the report: a function
  declaration, a struct type specification, a value specification. \<open>declares file D\<close>
  says that the traversal of the file meets \<open>D\<close>; \<open>lines_for\<close> is what the visitor
  prints for \<open>D\<close> met alone; \<open>rendered_part\<close> is the part of \<open>D\<close> that the renderer
  reads.
\<close>

datatype reportable =
    FunctionDeclaration func_decl
  | RecordDeclaration string "field list"
  | VariableDeclaration nat "string list" "expr option" "expr list"

fun declares_node :: "reportable \<Rightarrow> node \<Rightarrow> bool" where
  "declares_node (FunctionDeclaration fn) n = (n = FuncDeclNode fn)"
| "declares_node (RecordDeclaration name fl) n =
     (case n of
        GenDeclNode d \<Rightarrow> Tok d = token_TYPE \<and> TypeSpec name (StructType fl) \<in> set (Specs d)
      | _ \<Rightarrow> False)"
| "declares_node (VariableDeclaration a names ty vals) n =
     (case n of
        GenDeclNode d \<Rightarrow> Tok d = token_VAR \<and> ValueSpec a names ty vals \<in> set (Specs d)
      | _ \<Rightarrow> False)"

definition declares :: "ast_file \<Rightarrow> reportable \<Rightarrow> bool" where
  "declares file D = list_ex (declares_node D) (Inspect file)"

fun node_of :: "reportable \<Rightarrow> node" where
  "node_of (FunctionDeclaration fn) = FuncDeclNode fn"
| "node_of (RecordDeclaration name fl) =
     GenDeclNode (GenDecl token_TYPE [TypeSpec name (StructType fl)])"
| "node_of (VariableDeclaration a names ty vals) =
     GenDeclNode (GenDecl token_VAR [ValueSpec a names ty vals])"

definition lines_for :: "fmt \<Rightarrow> string \<Rightarrow> reportable \<Rightarrow> string list" where
  "lines_for F filename D =
     Stdout (io (visitor F filename (node_of D) \<lparr>processed = Map.empty, io = no_output\<rparr>))"

datatype rendered =
    FunctionText string "string list" "string list"
  | RecordText string "string list"
  | VariableText "string list" string

fun rendered_part :: "fmt \<Rightarrow> reportable \<Rightarrow> rendered" where
  "rendered_part F (FunctionDeclaration fn) =
     FunctionText (Name fn) (param_names fn) (result_names fn)"
| "rendered_part F (RecordDeclaration name fl) = RecordText name (field_names fl)"
| "rendered_part F (VariableDeclaration a names ty vals) =
     VariableText names
       ((case ty of None \<Rightarrow> [] | Some t \<Rightarrow> removeTokenInfo (Sprint F a t))
          @ '' '' @ (if vals = [] then [] else Sprintf_sharp_v F a vals))"

fun plain_declaration :: "reportable \<Rightarrow> bool" where
  "plain_declaration (FunctionDeclaration fn) =
     (plain_name (Name fn) \<and> list_all plain_name (param_names fn)
      \<and> list_all plain_name (result_names fn))"
| "plain_declaration (RecordDeclaration name fl) =
     (plain_name name \<and> list_all plain_name (field_names fl))"
| "plain_declaration (VariableDeclaration a names ty vals) =
     (names \<noteq> [] \<and> list_all plain_name names)"

text \<open>The signature the visitor hands to the emitter for a declaration.\<close>

fun signature_of :: "fmt \<Rightarrow> reportable \<Rightarrow> string" where
  "signature_of F (FunctionDeclaration fn) = ''function '' @ getFunctionSignature fn"
| "signature_of F (RecordDeclaration name fl) = ''struct '' @ getStructDefinition name fl"
| "signature_of F (VariableDeclaration a names ty vals) =
     ''var '' @ getVariableDefinition F a names ty vals"

section \<open>Example inputs\<close>

text \<open>A rendering of types and values: an identifier prints as its name, as
  \<^verbatim>\<open>(*ast.Ident).String\<close> makes \<^verbatim>\<open>fmt.Sprint\<close> do.\<close>

definition ex_fmt :: fmt where
  "ex_fmt = \<lparr>Sprint = (\<lambda>a e. case e of Ident x \<Rightarrow> x | _ \<Rightarrow> ''&{}''),
             Sprintf_sharp_v = (\<lambda>a vs. ''[]ast.Expr{}'')\<rparr>"

definition ex_int :: "expr option" where
  "ex_int = Some (Ident ''int'')"

text \<open>\<^verbatim>\<open>func Add(a, b int) int { return a + b }\<close>\<close>

definition ex_Add :: func_decl where
  "ex_Add = \<lparr>Recv = None, Name = ''Add'',
             Type = \<lparr>Params = [Field [''a'', ''b''] ex_int],
                      Results = Some [Field [] ex_int]\<rparr>,
             Body = Some [OtherStmt [ChildExpr (OtherExpr [Ident ''a'', Ident ''b''])]]\<rparr>"

text \<open>\<^verbatim>\<open>type Point struct { X, Y int }\<close>\<close>

definition ex_Point :: gen_decl where
  "ex_Point =
     GenDecl token_TYPE [TypeSpec ''Point'' (StructType [Field [''X'', ''Y''] ex_int])]"

text \<open>\<^verbatim>\<open>func Div(a, b int) (int, error)\<close>\<close>

definition ex_Div :: func_decl where
  "ex_Div = \<lparr>Recv = None, Name = ''Div'',
             Type = \<lparr>Params = [Field [''a'', ''b''] ex_int],
                      Results = Some [Field [] ex_int, Field [] (Some (Ident ''error''))]\<rparr>,
             Body = None\<rparr>"

text \<open>\<^verbatim>\<open>var ( total, count int; limit = 10 )\<close>\<close>

definition ex_vars :: gen_decl where
  "ex_vars = GenDecl token_VAR
     [ValueSpec 1 [''total'', ''count''] ex_int [],
      ValueSpec 2 [''limit''] None [OtherExpr []]]"

text \<open>\<^verbatim>\<open>func Run() { var x int; type pair struct { L, R int } }\<close>\<close>

definition ex_Run :: func_decl where
  "ex_Run = \<lparr>Recv = None, Name = ''Run'',
             Type = \<lparr>Params = [], Results = None\<rparr>,
             Body = Some [DeclStmt (GenDecl token_VAR [ValueSpec 3 [''x''] ex_int []]),
                          DeclStmt (GenDecl token_TYPE
                            [TypeSpec ''pair'' (StructType [Field [''L'', ''R''] ex_int])])]\<rparr>"

text \<open>\<^verbatim>\<open>func (s *S) Get(k string) int\<close> and \<^verbatim>\<open>func (t *T) Get(k string) int\<close>\<close>

definition ex_GetS :: func_decl where
  "ex_GetS = \<lparr>Recv = Some [Field [''s''] (Some (OtherExpr [Ident ''S'']))], Name = ''Get'',
              Type = \<lparr>Params = [Field [''k''] (Some (Ident ''string''))],
                       Results = Some [Field [] ex_int]\<rparr>,
              Body = None\<rparr>"

definition ex_GetT :: func_decl where
  "ex_GetT = \<lparr>Recv = Some [Field [''t''] (Some (OtherExpr [Ident ''T'']))], Name = ''Get'',
              Type = \<lparr>Params = [Field [''k''] (Some (Ident ''string''))],
                       Results = Some [Field [] ex_int]\<rparr>,
              Body = None\<rparr>"

definition ex_point_file :: ast_file where
  "ex_point_file = \<lparr>PkgName = ''geom'', Decls = [FuncDecl ex_Add, GenDeclD ex_Point]\<rparr>"

definition ex_local_file :: ast_file where
  "ex_local_file = \<lparr>PkgName = ''p'', Decls =
     [GenDeclD (GenDecl token_IMPORT [ImportSpec ''fmt'']),
      GenDeclD (GenDecl token_CONST [ValueSpec 4 [''Max''] None [OtherExpr []]]),
      FuncDecl ex_Run]\<rparr>"

definition ex_vars_file :: ast_file where
  "ex_vars_file = \<lparr>PkgName = ''p'', Decls = [GenDeclD ex_vars, FuncDecl ex_Div, GenDeclD ex_Point]\<rparr>"

text \<open>\<^verbatim>\<open>var ( total, count int; limit = 10 ); var (); func Div(a, b int) (int, error)\<close>\<close>

definition ex_group_file :: ast_file where
  "ex_group_file =
     \<lparr>PkgName = ''p'',
      Decls = [GenDeclD ex_vars, GenDeclD (GenDecl token_VAR []), FuncDecl ex_Div]\<rparr>"

text \<open>
  \<^verbatim>\<open>func F() { if true { type inner struct { A int }; var q int };
     g := func() { type inner struct { A string }; var z int } }\<close>
\<close>

definition ex_inner_int :: gen_decl where
  "ex_inner_int = GenDecl token_TYPE [TypeSpec ''inner'' (StructType [Field [''A''] ex_int])]"

definition ex_inner_string :: gen_decl where
  "ex_inner_string =
     GenDecl token_TYPE
       [TypeSpec ''inner'' (StructType [Field [''A''] (Some (Ident ''string''))])]"

definition ex_q :: gen_decl where
  "ex_q = GenDecl token_VAR [ValueSpec 6 [''q''] ex_int []]"

definition ex_z :: gen_decl where
  "ex_z = GenDecl token_VAR [ValueSpec 7 [''z''] ex_int []]"

definition ex_F :: func_decl where
  "ex_F = \<lparr>Recv = None, Name = ''F'',
           Type = \<lparr>Params = [], Results = None\<rparr>,
           Body = Some
             [OtherStmt [ChildExpr (Ident ''true''),
                         ChildStmt (OtherStmt [ChildStmt (DeclStmt ex_inner_int),
                                               ChildStmt (DeclStmt ex_q)])],
              OtherStmt [ChildExpr (Ident ''g''),
                         ChildExpr (FuncLit [] None
                                      [DeclStmt ex_inner_string, DeclStmt ex_z])]]\<rparr>"

definition ex_nested_file :: ast_file where
  "ex_nested_file = \<lparr>PkgName = ''p'', Decls =
     [GenDeclD (GenDecl token_IMPORT [ImportSpec ''fmt'']),
      GenDeclD (GenDecl token_CONST [ValueSpec 4 [''Max''] None [OtherExpr []]]),
      FuncDecl ex_F]\<rparr>"

definition ex_dup_file :: ast_file where
  "ex_dup_file = \<lparr>PkgName = ''p'', Decls = [FuncDecl ex_GetS, FuncDecl ex_Add, FuncDecl ex_GetT]\<rparr>"

text \<open>A parser for the examples: six files parse, every other path is a syntax error.\<close>

definition ex_ParseFile :: "string \<Rightarrow> string + ast_file" where
  "ex_ParseFile p =
    (if p = ''point.go'' then Inr ex_point_file
     else if p = ''local.go'' then Inr ex_local_file
     else if p = ''vars.go'' then Inr ex_vars_file
     else if p = ''group.go'' then Inr ex_group_file
     else if p = ''nested.go'' then Inr ex_nested_file
     else if p = ''dup.go'' then Inr ex_dup_file
     else Inl ''1:1: expected package, found EOF'')"

definition ex_entry :: "string \<Rightarrow> walk_entry" where
  "ex_entry p = \<lparr>path = p, info_Name = p, info_IsDir = False, err = None\<rparr>"

section \<open>Lemmas\<close>

lemmas ex_defs = ex_ParseFile_def ex_point_file_def ex_local_file_def ex_vars_file_def
  ex_group_file_def ex_nested_file_def ex_inner_int_def ex_inner_string_def ex_q_def
  ex_z_def ex_F_def ex_dup_file_def ex_Add_def ex_Point_def ex_Div_def ex_vars_def ex_Run_def
  ex_GetS_def ex_GetT_def ex_int_def ex_fmt_def ex_entry_def no_output_def

lemmas prog_defs = parseFile_def Inspect_def inspect_field_list_def visitor_def
  processIfNotProcessed_def lookup_def print_def Printf_line_def getFunctionSignature_def
  getStructDefinition_def getVariableDefinition_def visit_type_spec_def visit_value_spec_def
  removeTokenInfo_def TrimPrefix_def TrimSuffix_def HasPrefix_def HasSuffix_def
  run_def walk_fn_def

lemmas sig_defs = file_sigs_def node_sigs_def type_spec_sigs_def value_spec_sigs_def

subsection \<open>The emitter\<close>

lemma set_first_occurrences [simp]: "set (first_occurrences xs) = set xs"
  by (induction xs) auto

lemma distinct_first_occurrences [simp]: "distinct (first_occurrences xs)"
  by (induction xs) auto

lemma first_occurrences_distinct: "distinct xs \<Longrightarrow> first_occurrences xs = xs"
  by (induction xs) (auto simp: filter_id_conv)

lemma lookup_process:
  "lookup (processed (processIfNotProcessed fn s st)) k = (lookup (processed st) k \<or> k = s)"
  by (auto simp: processIfNotProcessed_def lookup_def)

lemma lookup_fold_process:
  "lookup (processed (fold (processIfNotProcessed fn) ss st)) k
     = (lookup (processed st) k \<or> k \<in> set ss)"
  by (induction ss arbitrary: st) (auto simp: lookup_process)

lemma Stderr_process [simp]:
  "Stderr (io (processIfNotProcessed fn s st)) = Stderr (io st)"
  by (simp add: processIfNotProcessed_def print_def)

lemma Stderr_fold_process [simp]:
  "Stderr (io (fold (processIfNotProcessed fn) ss st)) = Stderr (io st)"
  by (induction ss arbitrary: st) auto

lemma Stdout_fold_process:
  "Stdout (io (fold (processIfNotProcessed fn) ss st))
     = Stdout (io st)
       @ map (Printf_line fn)
           (filter (\<lambda>s. \<not> lookup (processed st) s) (first_occurrences ss))"
proof (induction ss arbitrary: st)
  case Nil
  show ?case by simp
next
  case (Cons x xs)
  show ?case
  proof (cases "lookup (processed st) x")
    case True
    then have same: "processIfNotProcessed fn x st = st"
      by (simp add: processIfNotProcessed_def)
    have "filter (\<lambda>s. \<not> lookup (processed st) s) (filter (\<lambda>y. y \<noteq> x) (first_occurrences xs))
            = filter (\<lambda>s. \<not> lookup (processed st) s) (first_occurrences xs)"
      using True by (auto simp: filter_filter intro: filter_cong)
    then show ?thesis
      using True by (simp add: same Cons.IH)
  next
    case False
    let ?st = "processIfNotProcessed fn x st"
    have out: "Stdout (io ?st) = Stdout (io st) @ [Printf_line fn x]"
      using False by (simp add: processIfNotProcessed_def print_def)
    have "filter (\<lambda>s. \<not> lookup (processed ?st) s) (first_occurrences xs)
            = filter (\<lambda>s. \<not> lookup (processed st) s) (filter (\<lambda>y. y \<noteq> x) (first_occurrences xs))"
      by (auto simp: filter_filter lookup_process intro: filter_cong)
    then show ?thesis
      using False by (simp add: Cons.IH out)
  qed
qed

lemma fold_visit_type_spec:
  "fold (visit_type_spec fn) specs st
     = fold (processIfNotProcessed fn) (concat (map type_spec_sigs specs)) st"
proof (induction specs arbitrary: st)
  case Nil
  show ?case by simp
next
  case (Cons sp specs)
  have "visit_type_spec fn sp st = fold (processIfNotProcessed fn) (type_spec_sigs sp) st"
    by (simp add: visit_type_spec_def type_spec_sigs_def split: spec.splits expr.splits)
  then show ?case by (simp add: Cons.IH)
qed

lemma fold_visit_value_spec:
  "fold (visit_value_spec F fn) specs st
     = fold (processIfNotProcessed fn) (concat (map (value_spec_sigs F) specs)) st"
proof (induction specs arbitrary: st)
  case Nil
  show ?case by simp
next
  case (Cons sp specs)
  have "visit_value_spec F fn sp st = fold (processIfNotProcessed fn) (value_spec_sigs F sp) st"
    by (simp add: visit_value_spec_def value_spec_sigs_def split: spec.splits)
  then show ?case by (simp add: Cons.IH)
qed

lemma visitor_sigs:
  "visitor F fn n st = fold (processIfNotProcessed fn) (node_sigs F n) st"
  by (cases n)
     (simp_all add: visitor_def node_sigs_def fold_visit_type_spec fold_visit_value_spec)

lemma fold_visitor_sigs:
  "fold (visitor F fn) ns st
     = fold (processIfNotProcessed fn) (concat (map (node_sigs F) ns)) st"
  by (induction ns arbitrary: st) (simp_all add: visitor_sigs)

lemma Stdout_parseFile_ok:
  assumes "ParseFile fn = Inr file"
  shows "Stdout (parseFile ParseFile F fn w)
           = Stdout w @ map (Printf_line fn) (first_occurrences (file_sigs F file))"
  using assms
  by (simp add: parseFile_def fold_visitor_sigs Stdout_fold_process file_sigs_def lookup_def)

lemma Stderr_parseFile [simp]:
  "Stderr (parseFile ParseFile F fn w) = Stderr w"
  by (simp add: parseFile_def fold_visitor_sigs print_def split: sum.splits)

subsection \<open>The renderer\<close>

lemma fold_append_names: "fold (\<lambda>name ps. ps @ [name]) ns acc = acc @ ns"
  by (induction ns arbitrary: acc) auto

lemma fold_field_names:
  "fold (\<lambda>param ps. fold (\<lambda>name ps. ps @ [name]) (Names param) ps) fl acc
     = acc @ field_names fl"
  by (induction fl arbitrary: acc) (auto simp: fold_append_names field_names_def)

lemma fold_result_names:
  "fold (\<lambda>result rs.
          (case FieldType result of
             None \<Rightarrow> rs
           | Some (Ident x) \<Rightarrow> rs @ [x]
           | Some _ \<Rightarrow> rs)) rl acc
     = acc @ concat (map result_type_name rl)"
proof (induction rl arbitrary: acc)
  case Nil
  show ?case by simp
next
  case (Cons r rl)
  show ?case
    by (simp add: Cons.IH result_type_name_def split: option.splits expr.splits)
qed

lemma getFunctionSignature_eq:
  "getFunctionSignature fn
     = Name fn @ ''('' @ Join (param_names fn) '', '' @ '') '' @ Join (result_names fn) '', ''"
  by (simp add: getFunctionSignature_def Let_def fold_field_names fold_result_names
        param_names_def result_names_def split: option.splits)

lemma getStructDefinition_eq:
  "getStructDefinition name fl
     = ''type '' @ name @ '' struct { '' @ Join (field_names fl) '', '' @ '' }''"
  by (simp add: getStructDefinition_def Let_def fold_field_names)

lemma getVariableDefinition_eq:
  "getVariableDefinition F a names ty vals
     = (if names = [] then []
        else ''var '' @ Join names '', '' @ '' ''
               @ (case ty of None \<Rightarrow> [] | Some t \<Rightarrow> removeTokenInfo (Sprint F a t))
               @ '' '' @ (if vals = [] then [] else Sprintf_sharp_v F a vals))"
  by (simp add: getVariableDefinition_def Let_def fold_append_names)

subsection \<open>Files and the walk\<close>

lemma count_list_distinct:
  "distinct xs \<Longrightarrow> x \<in> set xs \<Longrightarrow> count_list xs x = 1"
  by (induction xs) (auto simp: count_list_0_iff)

lemma inj_Printf_line: "inj (Printf_line fn)"
  by (simp add: inj_def Printf_line_def)

lemma file_report_ok:
  "ParseFile fn = Inr file \<Longrightarrow>
   file_report ParseFile F fn = map (Printf_line fn) (first_occurrences (file_sigs F file))"
  by (simp add: file_report_def Stdout_parseFile_ok no_output_def)

lemma Stdout_parseFile_append:
  "Stdout (parseFile ParseFile F fn w) = Stdout w @ file_report ParseFile F fn"
proof (cases "ParseFile fn")
  case (Inl msg)
  then show ?thesis
    by (simp add: file_report_def parseFile_def print_def no_output_def)
next
  case (Inr tree)
  then show ?thesis
    by (simp add: file_report_ok Stdout_parseFile_ok)
qed

lemma Stdout_walk_fn_append:
  "Stdout (walk_fn ParseFile F e w) = Stdout w @ entry_report ParseFile F e"
proof (cases "err e")
  case (Some msg)
  then show ?thesis
    by (simp add: entry_report_def walk_fn_def print_def no_output_def)
next
  case None
  show ?thesis
  proof (cases "\<not> info_IsDir e \<and> HasSuffix (info_Name e) ''.go''")
    case True
    have "entry_report ParseFile F e = file_report ParseFile F (path e)"
      using None True by (simp add: entry_report_def walk_fn_def file_report_def)
    moreover have "walk_fn ParseFile F e w = parseFile ParseFile F (path e) w"
      using None True by (simp add: walk_fn_def)
    ultimately show ?thesis
      by (simp only: Stdout_parseFile_append)
  next
    case False
    then show ?thesis
      using None by (auto simp: entry_report_def walk_fn_def no_output_def)
  qed
qed

lemma Stdout_run_append:
  "Stdout (run ParseFile F es w) = Stdout w @ concat (map (entry_report ParseFile F) es)"
  unfolding run_def
  by (induction es arbitrary: w) (simp_all add: Stdout_walk_fn_append)

lemma Stderr_walk_fn [simp]: "Stderr (walk_fn ParseFile F e w) = Stderr w"
  by (simp add: walk_fn_def print_def split: option.splits)

lemma Stderr_run [simp]: "Stderr (run ParseFile F es w) = Stderr w"
  unfolding run_def by (induction es arbitrary: w) simp_all


subsection \<open>Where lines come from\<close>

lemma FuncDeclNode_in_Inspect:
  "FuncDecl fn \<in> set (Decls file) \<Longrightarrow> FuncDeclNode fn \<in> set (Inspect file)"
  by (force simp: Inspect_def)

lemma GenDeclNode_in_inspect_gen_decl: "GenDeclNode d \<in> set (inspect_gen_decl d)"
  by (cases d) simp

lemma GenDeclNode_in_Inspect:
  "GenDeclD d \<in> set (Decls file) \<Longrightarrow> GenDeclNode d \<in> set (Inspect file)"
  using GenDeclNode_in_inspect_gen_decl by (force simp: Inspect_def)

lemma decl_nodes_in_Inspect:
  "d \<in> set (Decls file) \<Longrightarrow> n \<in> set (inspect_decl d) \<Longrightarrow> n \<in> set (Inspect file)"
  by (auto simp: Inspect_def)

lemma local_GenDeclNode_in_Inspect:
  assumes "FuncDecl fn \<in> set (Decls file)" "Body fn = Some body" "DeclStmt d \<in> set body"
  shows "GenDeclNode d \<in> set (Inspect file)"
proof -
  have "GenDeclNode d \<in> set (inspect_stmt (DeclStmt d))"
    using GenDeclNode_in_inspect_gen_decl by simp
  then have "GenDeclNode d \<in> set (concat (map inspect_stmt body))"
    using assms(3) by (auto intro!: bexI [of _ "DeclStmt d"])
  then have "GenDeclNode d \<in> set (inspect_decl (FuncDecl fn))"
    using assms(2) by simp
  with assms(1) show ?thesis
    by (rule decl_nodes_in_Inspect)
qed

lemma node_sigs_in_file_sigs:
  "n \<in> set (Inspect file) \<Longrightarrow> s \<in> set (node_sigs F n) \<Longrightarrow> s \<in> set (file_sigs F file)"
  by (auto simp: file_sigs_def)

lemma sig_line_printed:
  assumes "ParseFile fn = Inr file" "s \<in> set (file_sigs F file)"
  shows "Printf_line fn s \<in> set (Stdout (parseFile ParseFile F fn w))"
  using assms by (simp add: Stdout_parseFile_ok)

lemma node_sig_line_printed:
  assumes "ParseFile fn = Inr file" "n \<in> set (Inspect file)" "s \<in> set (node_sigs F n)"
  shows "Printf_line fn s \<in> set (Stdout (parseFile ParseFile F fn w))"
  using assms by (blast intro: sig_line_printed node_sigs_in_file_sigs)


subsection \<open>The example files\<close>

lemma point_go_output:
  "Stdout (parseFile ex_ParseFile ex_fmt ''point.go'' no_output)
     = [''point.go: function Add(a, b) int\<newline>'',
        ''point.go: struct type Point struct { X, Y }\<newline>'']"
  by (simp add: prog_defs ex_defs)

lemma vars_go_output:
  "Stdout (parseFile ex_ParseFile ex_fmt ''vars.go'' no_output)
     = [''vars.go: var var total, count int \<newline>'',
        ''vars.go: var var limit  []ast.Expr{}\<newline>'',
        ''vars.go: function Div(a, b) int, error\<newline>'',
        ''vars.go: struct type Point struct { X, Y }\<newline>'']"
  by (simp add: prog_defs ex_defs)

lemma local_go_output:
  "Stdout (parseFile ex_ParseFile ex_fmt ''local.go'' no_output)
     = [''local.go: function Run() \<newline>'',
        ''local.go: var var x int \<newline>'',
        ''local.go: struct type pair struct { L, R }\<newline>'']"
  by (simp add: prog_defs ex_defs)

lemma concat_map_concat:
  "concat (map f (concat xss)) = concat (map (\<lambda>xs. concat (map f xs)) xss)"
  by (induction xss) simp_all

subsection \<open>When two function signatures are equal\<close>

lemma takeWhile_upto_sep:
  "c \<notin> set x \<Longrightarrow> takeWhile (\<lambda>a. a \<noteq> c) (x @ c # r) = x"
  by (induction x) auto

lemma split_at_sep:
  assumes "c \<notin> set x" "c \<notin> set y" "x @ c # r = y @ c # r'"
  shows "x = y \<and> r = r'"
proof -
  have "takeWhile (\<lambda>a. a \<noteq> c) (x @ c # r) = takeWhile (\<lambda>a. a \<noteq> c) (y @ c # r')"
    using assms(3) by simp
  then have "x = y"
    using assms(1,2) by (simp add: takeWhile_upto_sep)
  with assms(3) show ?thesis by simp
qed

lemma Join_Cons:
  "Join (x # xs) sep = x @ (if xs = [] then [] else sep @ Join xs sep)"
  by (cases xs) simp_all

lemma takeWhile_Join:
  assumes "CHR '','' \<notin> set x"
  shows "takeWhile (\<lambda>a. a \<noteq> CHR '','') (Join (x # xs) '', '') = x"
proof (cases "xs = []")
  case True
  then show ?thesis using assms by (auto simp: takeWhile_eq_all_conv)
next
  case False
  then show ?thesis
    using takeWhile_upto_sep [OF assms, of "'' '' @ Join xs '', ''"]
    by (simp add: Join_Cons)
qed

lemma Join_plain_inj:
  "list_all plain_name xs \<Longrightarrow> list_all plain_name ys \<Longrightarrow>
   Join xs '', '' = Join ys '', '' \<Longrightarrow> xs = ys"
proof (induction xs arbitrary: ys)
  case Nil
  then show ?case
    by (cases ys) (auto simp: Join_Cons plain_name_def)
next
  case (Cons x xs)
  show ?case
  proof (cases ys)
    case Nil
    with Cons.prems show ?thesis
      by (auto simp: Join_Cons plain_name_def)
  next
    case (Cons y ys')
    have px: "CHR '','' \<notin> set x" and py: "CHR '','' \<notin> set y"
      using Cons.prems(1,2) Cons by (simp_all add: plain_name_def)
    have "takeWhile (\<lambda>a. a \<noteq> CHR '','') (Join (x # xs) '', '')
            = takeWhile (\<lambda>a. a \<noteq> CHR '','') (Join (y # ys') '', '')"
      using Cons.prems(3) Cons by simp
    then have xy: "x = y"
      by (simp only: takeWhile_Join [OF px] takeWhile_Join [OF py])
    have rest: "(if xs = [] then [] else '', '' @ Join xs '', '')
                  = (if ys' = [] then [] else '', '' @ Join ys' '', '')"
      using Cons.prems(3) Cons xy by (simp only: Join_Cons same_append_eq)
    have "xs = ys'"
    proof (cases "xs = []")
      case True
      with rest show ?thesis by (auto split: if_splits)
    next
      case False
      with rest have "ys' \<noteq> []" and "Join xs '', '' = Join ys' '', ''"
        by (auto split: if_splits)
      with Cons.IH [of ys'] Cons.prems(1,2) Cons show ?thesis by simp
    qed
    with xy Cons show ?thesis by simp
  qed
qed

lemma Join_plain_no_paren:
  "list_all plain_name xs \<Longrightarrow> CHR '')'' \<notin> set (Join xs '', '')"
  by (induction xs) (auto simp: Join_Cons plain_name_def)

lemma getFunctionSignature_inj:
  assumes "plain_name (Name f1)" "plain_name (Name f2)"
    and "list_all plain_name (param_names f1)" "list_all plain_name (param_names f2)"
    and "list_all plain_name (result_names f1)" "list_all plain_name (result_names f2)"
  shows "(getFunctionSignature f1 = getFunctionSignature f2)
           = (Name f1 = Name f2 \<and> param_names f1 = param_names f2
                \<and> result_names f1 = result_names f2)"
proof
  assume eq: "getFunctionSignature f1 = getFunctionSignature f2"
  let ?P1 = "Join (param_names f1) '', ''" and ?P2 = "Join (param_names f2) '', ''"
  let ?R1 = "Join (result_names f1) '', ''" and ?R2 = "Join (result_names f2) '', ''"
  have e1: "Name f1 @ CHR ''('' # (?P1 @ '') '' @ ?R1) = Name f2 @ CHR ''('' # (?P2 @ '') '' @ ?R2)"
    using eq by (simp add: getFunctionSignature_eq)
  have n1: "CHR ''('' \<notin> set (Name f1)" and n2: "CHR ''('' \<notin> set (Name f2)"
    using assms(1,2) by (simp_all add: plain_name_def)
  from split_at_sep [OF n1 n2 e1]
  have n: "Name f1 = Name f2" and r: "?P1 @ '') '' @ ?R1 = ?P2 @ '') '' @ ?R2"
    by simp_all
  have e2: "?P1 @ CHR '')'' # ('' '' @ ?R1) = ?P2 @ CHR '')'' # ('' '' @ ?R2)"
    using r by simp
  have p1: "CHR '')'' \<notin> set ?P1" and p2: "CHR '')'' \<notin> set ?P2"
    using assms(3,4) by (simp_all add: Join_plain_no_paren)
  from split_at_sep [OF p1 p2 e2]
  have p: "?P1 = ?P2" and q: "?R1 = ?R2"
    by simp_all
  have "param_names f1 = param_names f2"
    using assms(3,4) p by (rule Join_plain_inj)
  moreover have "result_names f1 = result_names f2"
    using assms(5,6) q by (rule Join_plain_inj)
  ultimately show "Name f1 = Name f2 \<and> param_names f1 = param_names f2
                \<and> result_names f1 = result_names f2"
    using n by simp
next
  assume "Name f1 = Name f2 \<and> param_names f1 = param_names f2
                \<and> result_names f1 = result_names f2"
  then show "getFunctionSignature f1 = getFunctionSignature f2"
    by (simp add: getFunctionSignature_eq)
qed

subsection \<open>Nested declarations and the traversal\<close>

lemma no_FuncDeclNode_below:
  "FuncDeclNode fn \<notin> set (inspect_expr e)"
  "FuncDeclNode fn \<notin> set (inspect_field f)"
  "FuncDeclNode fn \<notin> set (inspect_stmt s)"
  "FuncDeclNode fn \<notin> set (inspect_child c)"
  "FuncDeclNode fn \<notin> set (inspect_gen_decl g)"
  "FuncDeclNode fn \<notin> set (inspect_spec sp)"
  by (induction e and f and s and c and g and sp
      rule: inspect_expr_inspect_field_inspect_stmt_inspect_child_inspect_gen_decl_inspect_spec.induct)
     (auto split: option.splits)

lemma GenDeclNode_below:
  "(GenDeclNode d \<in> set (inspect_expr e)) = decl_in_expr d e"
  "(GenDeclNode d \<in> set (inspect_field f)) = decl_in_field d f"
  "(GenDeclNode d \<in> set (inspect_stmt s)) = decl_in_stmt d s"
  "(GenDeclNode d \<in> set (inspect_child c)) = decl_in_child d c"
  "(GenDeclNode d \<in> set (inspect_gen_decl g)) = decl_in_gen_decl d g"
  "(GenDeclNode d \<in> set (inspect_spec sp)) = decl_in_spec d sp"
  by (induction e and f and s and c and g and sp
      rule: inspect_expr_inspect_field_inspect_stmt_inspect_child_inspect_gen_decl_inspect_spec.induct)
     (auto simp: list_ex_iff split: option.splits)


lemma FuncDeclNode_in_Inspect_iff:
  "(FuncDeclNode fn \<in> set (Inspect file)) = (FuncDecl fn \<in> set (Decls file))"
proof -
  have "(FuncDeclNode fn \<in> set (inspect_decl dl)) = (dl = FuncDecl fn)" for dl
    by (cases dl)
       (auto simp: inspect_field_list_def no_FuncDeclNode_below split: option.splits)
  then show ?thesis
    by (auto simp: Inspect_def)
qed

lemma GenDeclNode_in_Inspect_iff:
  "(GenDeclNode d \<in> set (Inspect file)) = declared_in d file"
proof -
  have "(GenDeclNode d \<in> set (inspect_decl dl)) = decl_in_decl d dl" for dl
    by (cases dl)
       (auto simp: inspect_field_list_def GenDeclNode_below list_ex_iff split: option.splits)
  then show ?thesis
    by (auto simp: Inspect_def declared_in_def list_ex_iff)
qed

lemma set_file_report:
  "ParseFile fn = Inr file \<Longrightarrow>
   set (file_report ParseFile F fn) = Printf_line fn ` set (file_sigs F file)"
  by (simp add: file_report_ok)

lemma set_file_sigs:
  "set (file_sigs F file) = (\<Union>n \<in> set (Inspect file). set (node_sigs F n))"
  by (simp add: file_sigs_def)

lemma set_type_spec_sigs:
  "(s \<in> set (type_spec_sigs sp))
     = (\<exists>name fl. sp = TypeSpec name (StructType fl) \<and> s = ''struct '' @ getStructDefinition name fl)"
  by (auto simp: type_spec_sigs_def split: spec.splits expr.splits)

lemma set_value_spec_sigs:
  "(s \<in> set (value_spec_sigs F sp))
     = (\<exists>a names ty vals. sp = ValueSpec a names ty vals
          \<and> s = ''var '' @ getVariableDefinition F a names ty vals)"
  by (auto simp: value_spec_sigs_def split: spec.splits)

lemma set_node_sigs:
  "(s \<in> set (node_sigs F n))
     = ((\<exists>fn. n = FuncDeclNode fn \<and> s = ''function '' @ getFunctionSignature fn)
        \<or> (\<exists>d name fl. n = GenDeclNode d \<and> Tok d = token_TYPE
              \<and> TypeSpec name (StructType fl) \<in> set (Specs d)
              \<and> s = ''struct '' @ getStructDefinition name fl)
        \<or> (\<exists>d a names ty vals. n = GenDeclNode d \<and> Tok d = token_VAR
              \<and> ValueSpec a names ty vals \<in> set (Specs d)
              \<and> s = ''var '' @ getVariableDefinition F a names ty vals))"
proof (cases n)
  case (FuncDeclNode fn)
  then show ?thesis by (auto simp: node_sigs_def)
next
  case (GenDeclNode d)
  show ?thesis
  proof (cases "Tok d")
    case token_TYPE
    with GenDeclNode show ?thesis
      by (simp add: node_sigs_def set_type_spec_sigs) blast
  next
    case token_VAR
    with GenDeclNode show ?thesis
      by (simp add: node_sigs_def set_value_spec_sigs) blast
  qed (use GenDeclNode in \<open>simp_all add: node_sigs_def\<close>)
next
  case OtherNode
  then show ?thesis by (simp add: node_sigs_def)
qed

subsection \<open>Trees of the parser\<close>


lemma parseFile_cong_sigs:
  assumes "ParseFile fn = Inr file" "ParseFile' fn = Inr file'"
    and "file_sigs F file = file_sigs F file'"
  shows "parseFile ParseFile F fn w = parseFile ParseFile' F fn w"
  using assms by (simp add: parseFile_def fold_visitor_sigs file_sigs_def)

text \<open>What the visitor does with a value specification without names, which no tree of the
  parser holds: the helper returns the empty string and the visitor prints it behind its
  prefix.\<close>

lemma nameless_spec_prefix_only:
  "getVariableDefinition F a [] ty vals = []
   \<and> Stdout (io (visitor F filename (GenDeclNode (GenDecl token_VAR [ValueSpec a [] ty vals]))
                   \<lparr>processed = Map.empty, io = no_output\<rparr>))
       = [Printf_line filename ''var '']"
  by (simp add: visitor_def visit_value_spec_def getVariableDefinition_def
        processIfNotProcessed_def lookup_def print_def no_output_def)


subsection \<open>The emitter, one signature more\<close>

lemma entry_report_go_file:
  "go_file_entry e \<Longrightarrow> entry_report ParseFile F e = file_report ParseFile F (path e)"
  by (simp add: go_file_entry_def entry_report_def walk_fn_def file_report_def)

lemma Stdout_emitter_snoc:
  "Stdout (io (fold (processIfNotProcessed fn) (ss @ [s]) \<lparr>processed = Map.empty, io = w\<rparr>))
     = Stdout (io (fold (processIfNotProcessed fn) ss \<lparr>processed = Map.empty, io = w\<rparr>))
       @ (if s \<in> set ss then [] else [Printf_line fn s])"
proof -
  let ?st = "fold (processIfNotProcessed fn) ss \<lparr>processed = Map.empty, io = w\<rparr>"
  have "lookup Map.empty s = False"
    by (simp add: lookup_def)
  then have "lookup (processed ?st) s = (s \<in> set ss)"
    by (simp add: lookup_fold_process)
  then show ?thesis
    by (simp add: processIfNotProcessed_def print_def)
qed

subsection \<open>When two signatures are equal\<close>

lemma lines_for_eq: "lines_for F filename D = [Printf_line filename (signature_of F D)]"
  by (cases D)
     (simp_all add: lines_for_def visitor_def visit_type_spec_def visit_value_spec_def
        processIfNotProcessed_def lookup_def print_def no_output_def)

lemma declares_sig:
  "declares file D \<Longrightarrow> signature_of F D \<in> set (file_sigs F file)"
proof -
  assume "declares file D"
  then obtain n where n: "n \<in> set (Inspect file)" "declares_node D n"
    by (auto simp: declares_def list_ex_iff)
  from n(2) have "signature_of F D \<in> set (node_sigs F n)"
    unfolding set_node_sigs by (cases D) (auto split: node.splits)
  with n(1) show ?thesis
    by (auto simp: set_file_sigs)
qed

lemma takeWhile_upto:
  "(\<And>c. c \<in> set x \<Longrightarrow> P c) \<Longrightarrow> \<not> P c0 \<Longrightarrow> takeWhile P (x @ c0 # r) = x"
  by (induction x) auto

lemma Join_space_inj:
  "list_all plain_name xs \<Longrightarrow> xs \<noteq> [] \<Longrightarrow> list_all plain_name ys \<Longrightarrow> ys \<noteq> [] \<Longrightarrow>
   Join xs '', '' @ CHR '' '' # r1 = Join ys '', '' @ CHR '' '' # r2 \<Longrightarrow> xs = ys \<and> r1 = r2"
proof (induction xs arbitrary: ys)
  case Nil
  then show ?case by simp
next
  case (Cons x xs)
  from Cons.prems(4) obtain y ys' where ys: "ys = y # ys'"
    by (cases ys) auto
  let ?P = "\<lambda>c. c \<noteq> CHR '','' \<and> c \<noteq> CHR '' ''"
  let ?tx = "if xs = [] then CHR '' '' # r1 else '', '' @ Join xs '', '' @ CHR '' '' # r1"
  let ?ty = "if ys' = [] then CHR '' '' # r2 else '', '' @ Join ys' '', '' @ CHR '' '' # r2"
  have px: "\<And>c. c \<in> set x \<Longrightarrow> ?P c" and py: "\<And>c. c \<in> set y \<Longrightarrow> ?P c"
    using Cons.prems(1,3) ys by (auto simp: plain_name_def)
  have jx: "Join (x # xs) '', '' @ CHR '' '' # r1 = x @ ?tx"
    and jy: "Join (y # ys') '', '' @ CHR '' '' # r2 = y @ ?ty"
    by (simp_all add: Join_Cons)
  have eq: "x @ ?tx = y @ ?ty"
    using Cons.prems(5) unfolding ys jx jy .
  have tx: "takeWhile ?P (x @ ?tx) = x"
    using takeWhile_upto [of x ?P] px by (cases "xs = []") auto
  have ty: "takeWhile ?P (y @ ?ty) = y"
    using takeWhile_upto [of y ?P] py by (cases "ys' = []") auto
  have xy: "x = y"
    using tx ty eq by simp
  with eq have rest: "?tx = ?ty"
    by simp
  show ?case
  proof (cases "xs = []")
    case True
    with rest have "ys' = []" "r1 = r2"
      by (auto split: if_splits)
    with True xy ys show ?thesis by simp
  next
    case False
    with rest have ne: "ys' \<noteq> []"
      and j: "Join xs '', '' @ CHR '' '' # r1 = Join ys' '', '' @ CHR '' '' # r2"
      by (auto split: if_splits)
    have "xs = ys' \<and> r1 = r2"
      using Cons.IH [of ys'] Cons.prems(1,3) ys False ne j by simp
    with xy ys show ?thesis by simp
  qed
qed

lemma getStructDefinition_inj:
  assumes "plain_name n1" "plain_name n2"
    and "list_all plain_name (field_names fl1)" "list_all plain_name (field_names fl2)"
  shows "(getStructDefinition n1 fl1 = getStructDefinition n2 fl2)
           = (n1 = n2 \<and> field_names fl1 = field_names fl2)"
proof
  assume eq: "getStructDefinition n1 fl1 = getStructDefinition n2 fl2"
  let ?J1 = "Join (field_names fl1) '', ''" and ?J2 = "Join (field_names fl2) '', ''"
  have e: "n1 @ CHR '' '' # (''struct { '' @ ?J1 @ '' }'')
             = n2 @ CHR '' '' # (''struct { '' @ ?J2 @ '' }'')"
    using eq by (simp add: getStructDefinition_eq)
  have s1: "CHR '' '' \<notin> set n1" and s2: "CHR '' '' \<notin> set n2"
    using assms(1,2) by (simp_all add: plain_name_def)
  from split_at_sep [OF s1 s2 e] have n: "n1 = n2" and "?J1 @ '' }'' = ?J2 @ '' }''"
    by simp_all
  then have "?J1 = ?J2"
    by simp
  with assms(3,4) have "field_names fl1 = field_names fl2"
    by (rule Join_plain_inj)
  with n show "n1 = n2 \<and> field_names fl1 = field_names fl2"
    by simp
next
  assume "n1 = n2 \<and> field_names fl1 = field_names fl2"
  then show "getStructDefinition n1 fl1 = getStructDefinition n2 fl2"
    by (simp add: getStructDefinition_eq)
qed

lemma signature_of_inj:
  assumes "plain_declaration D1" "plain_declaration D2"
  shows "(signature_of F D1 = signature_of F D2) = (rendered_part F D1 = rendered_part F D2)"
proof (cases D1)
  case f1: (FunctionDeclaration fn1)
  show ?thesis
  proof (cases D2)
    case (FunctionDeclaration fn2)
    with f1 assms show ?thesis
      using getFunctionSignature_inj [of fn1 fn2] by simp
  qed (use f1 in \<open>simp_all add: getVariableDefinition_eq\<close>)
next
  case r1: (RecordDeclaration n1 fl1)
  show ?thesis
  proof (cases D2)
    case (RecordDeclaration n2 fl2)
    with r1 assms show ?thesis
      using getStructDefinition_inj [of n1 n2 fl1 fl2] by simp
  qed (use r1 in \<open>simp_all add: getVariableDefinition_eq\<close>)
next
  case v1: (VariableDeclaration a1 names1 ty1 vals1)
  show ?thesis
  proof (cases D2)
    case (VariableDeclaration a2 names2 ty2 vals2)
    let ?t1 = "(case ty1 of None \<Rightarrow> [] | Some t \<Rightarrow> removeTokenInfo (Sprint F a1 t))
                 @ '' '' @ (if vals1 = [] then [] else Sprintf_sharp_v F a1 vals1)"
    let ?t2 = "(case ty2 of None \<Rightarrow> [] | Some t \<Rightarrow> removeTokenInfo (Sprint F a2 t))
                 @ '' '' @ (if vals2 = [] then [] else Sprintf_sharp_v F a2 vals2)"
    have p: "list_all plain_name names1" "names1 \<noteq> []" "list_all plain_name names2" "names2 \<noteq> []"
      using assms v1 VariableDeclaration by simp_all
    have "(Join names1 '', '' @ CHR '' '' # ?t1 = Join names2 '', '' @ CHR '' '' # ?t2)
            = (names1 = names2 \<and> ?t1 = ?t2)"
      using Join_space_inj [OF p(1,2) p(3,4), of ?t1 ?t2] by auto
    then show ?thesis
      using v1 VariableDeclaration p by (simp add: getVariableDefinition_eq)
  qed (use v1 in \<open>simp_all add: getVariableDefinition_eq\<close>)
qed

section \<open>The claims\<close>

text \<open>
  C1. Deduplication is scoped per file. What a file that parses prints is the list of
  the lines \<open>FILEPATH: SIGNATURE\<close> of its signatures in the order of the traversal,
  every signature at the place of its first occurrence and nowhere else: the
  emitter, started with the empty map, writes the line of a signature when it has not
  met the signature before and writes nothing when it has. So every signature of the
  file has its line exactly once, and the file prints as many lines as it has distinct
  signatures. The map starts empty for every file: what a run prints is, file after
  file, what each file prints on its own, so a signature met in two files is printed
  once under each path.
\<close>

theorem dedup_per_file:
  assumes "ParseFile filename = Inr file"
    and "list_all go_file_entry entries"
    and "list_all (\<lambda>e. ParseFile (path e) = Inr (tree e)) entries"
  shows "Stdout (parseFile ParseFile F filename w)
           = Stdout w @ map (Printf_line filename) (first_occurrences (file_sigs F file))
       \<and> first_occurrences (ss @ [s])
           = first_occurrences ss @ (if s \<in> set ss then [] else [s])
       \<and> Stdout (io (fold (processIfNotProcessed filename) (ss @ [s])
                        \<lparr>processed = Map.empty, io = w\<rparr>))
           = Stdout (io (fold (processIfNotProcessed filename) ss
                           \<lparr>processed = Map.empty, io = w\<rparr>))
             @ (if s \<in> set ss then [] else [Printf_line filename s])
       \<and> (\<forall>s \<in> set (file_sigs F file).
            count_list (file_report ParseFile F filename) (Printf_line filename s) = 1)
       \<and> length (file_report ParseFile F filename) = card (set (file_sigs F file))
       \<and> Stdout (run ParseFile F entries w)
           = Stdout w
             @ concat (map (\<lambda>e. map (Printf_line (path e))
                                  (first_occurrences (file_sigs F (tree e)))) entries)"
proof -
  let ?sigs = "first_occurrences (file_sigs F file)"
  have rep: "file_report ParseFile F filename = map (Printf_line filename) ?sigs"
    using assms(1) by (rule file_report_ok)
  have one: "Stdout (parseFile ParseFile F filename w) = Stdout w @ map (Printf_line filename) ?sigs"
    using assms(1) by (rule Stdout_parseFile_ok)
  have snoc: "first_occurrences (ss @ [s]) = first_occurrences ss @ (if s \<in> set ss then [] else [s])"
    by (induction ss) auto
  have dist: "distinct (map (Printf_line filename) ?sigs)"
    by (simp add: distinct_map inj_on_subset [OF inj_Printf_line])
  have once: "count_list (file_report ParseFile F filename) (Printf_line filename s) = 1"
    if "s \<in> set (file_sigs F file)" for s
  proof -
    have "Printf_line filename s \<in> set (map (Printf_line filename) ?sigs)"
      using that by simp
    with dist show ?thesis
      unfolding rep by (rule count_list_distinct)
  qed
  have len: "length (file_report ParseFile F filename) = card (set (file_sigs F file))"
    using distinct_card [of ?sigs] by (simp add: rep)
  have "entry_report ParseFile F e
          = map (Printf_line (path e)) (first_occurrences (file_sigs F (tree e)))"
    if "e \<in> set entries" for e
  proof -
    have "go_file_entry e" and "ParseFile (path e) = Inr (tree e)"
      using assms(2,3) that by (simp_all add: list_all_iff)
    then show ?thesis
      by (simp add: entry_report_go_file file_report_ok)
  qed
  then have "map (entry_report ParseFile F) entries
          = map (\<lambda>e. map (Printf_line (path e)) (first_occurrences (file_sigs F (tree e)))) entries"
    by (intro map_cong refl)
  then have walk: "Stdout (run ParseFile F entries w)
           = Stdout w
             @ concat (map (\<lambda>e. map (Printf_line (path e))
                                  (first_occurrences (file_sigs F (tree e)))) entries)"
    by (simp only: Stdout_run_append)
  from one snoc Stdout_emitter_snoc once len walk show ?thesis
    by blast
qed

theorem dedup_per_file_witness:
  "ex_ParseFile ''dup.go'' = Inr ex_dup_file
   \<and> list_all go_file_entry [ex_entry ''dup.go'', ex_entry ''point.go'']
   \<and> list_all (\<lambda>e. ex_ParseFile (path e)
                      = Inr (if path e = ''dup.go'' then ex_dup_file else ex_point_file))
         [ex_entry ''dup.go'', ex_entry ''point.go'']
   \<and> file_sigs ex_fmt ex_dup_file
       = [''function Get(k) int'', ''function Add(a, b) int'', ''function Get(k) int'']
   \<and> Stdout (parseFile ex_ParseFile ex_fmt ''dup.go'' no_output)
       = [''dup.go: function Get(k) int\<newline>'', ''dup.go: function Add(a, b) int\<newline>'']
   \<and> count_list (file_report ex_ParseFile ex_fmt ''dup.go'')
        (Printf_line ''dup.go'' ''function Get(k) int'') = 1
   \<and> Stdout (run ex_ParseFile ex_fmt [ex_entry ''dup.go'', ex_entry ''point.go''] no_output)
       = [''dup.go: function Get(k) int\<newline>'',
          ''dup.go: function Add(a, b) int\<newline>'',
          ''point.go: function Add(a, b) int\<newline>'',
          ''point.go: struct type Point struct { X, Y }\<newline>'']"
proof -
  let ?es = "[ex_entry ''dup.go'', ex_entry ''point.go'']"
  let ?tree = "\<lambda>e. if path e = ''dup.go'' then ex_dup_file else ex_point_file"
  have h1: "ex_ParseFile ''dup.go'' = Inr ex_dup_file"
    by (simp add: ex_ParseFile_def)
  have h2: "list_all go_file_entry ?es"
    by (simp add: go_file_entry_def ex_entry_def HasSuffix_def)
  have h3: "list_all (\<lambda>e. ex_ParseFile (path e) = Inr (?tree e)) ?es"
    by (simp add: ex_entry_def ex_ParseFile_def)
  have sigs: "file_sigs ex_fmt ex_dup_file
       = [''function Get(k) int'', ''function Add(a, b) int'', ''function Get(k) int'']"
    by (simp add: sig_defs prog_defs ex_defs)
  have sigs': "file_sigs ex_fmt ex_point_file
       = [''function Add(a, b) int'', ''struct type Point struct { X, Y }'']"
    by (simp add: sig_defs prog_defs ex_defs)
  have paths: "path (ex_entry ''dup.go'') = ''dup.go''" "path (ex_entry ''point.go'') = ''point.go''"
    by (simp_all add: ex_entry_def)
  note inst = dedup_per_file [where ParseFile = ex_ParseFile and filename = "''dup.go''"
      and F = ex_fmt and w = no_output and entries = ?es and tree = ?tree, OF h1 h2 h3]
  from inst have a: "Stdout (parseFile ex_ParseFile ex_fmt ''dup.go'' no_output)
       = Stdout no_output
         @ map (Printf_line ''dup.go'') (first_occurrences (file_sigs ex_fmt ex_dup_file))"
    by blast
  have a': "Stdout (parseFile ex_ParseFile ex_fmt ''dup.go'' no_output)
       = [''dup.go: function Get(k) int\<newline>'', ''dup.go: function Add(a, b) int\<newline>'']"
    unfolding a sigs by (simp add: no_output_def Printf_line_def)
  from inst have "\<forall>s \<in> set (file_sigs ex_fmt ex_dup_file).
      count_list (file_report ex_ParseFile ex_fmt ''dup.go'') (Printf_line ''dup.go'' s) = 1"
    by blast
  then have b: "count_list (file_report ex_ParseFile ex_fmt ''dup.go'')
        (Printf_line ''dup.go'' ''function Get(k) int'') = 1"
    by (simp add: sigs)
  from inst have c: "Stdout (run ex_ParseFile ex_fmt ?es no_output)
       = Stdout no_output
         @ concat (map (\<lambda>e. map (Printf_line (path e))
                              (first_occurrences (file_sigs ex_fmt (?tree e)))) ?es)"
    by blast
  have c': "Stdout (run ex_ParseFile ex_fmt ?es no_output)
       = [''dup.go: function Get(k) int\<newline>'',
          ''dup.go: function Add(a, b) int\<newline>'',
          ''point.go: function Add(a, b) int\<newline>'',
          ''point.go: struct type Point struct { X, Y }\<newline>'']"
    unfolding c by (simp add: paths sigs sigs' no_output_def Printf_line_def)
  from h1 h2 h3 sigs a' b c' show ?thesis
    by blast
qed

text \<open>
  C2, as the code has it. The line for a struct type declared in a top-level type
  declaration carries the signature \<open>struct type N struct { F1, F2, ... }\<close>: the
  visitor writes \<open>struct\<close> before the text of \<^verbatim>\<open>getStructDefinition\<close>, which is
  \<open>type N struct { ... }\<close> with the field names joined by a comma and a space.
\<close>

theorem struct_signature_rendering:
  assumes "ParseFile filename = Inr file"
    and "GenDeclD d \<in> set (Decls file)"
    and "Tok d = token_TYPE"
    and "TypeSpec name (StructType fl) \<in> set (Specs d)"
  shows "Printf_line filename
           (''struct type '' @ name @ '' struct { '' @ Join (field_names fl) '', '' @ '' }'')
         \<in> set (Stdout (parseFile ParseFile F filename w))"
proof -
  have "''struct '' @ getStructDefinition name fl \<in> set (type_spec_sigs (TypeSpec name (StructType fl)))"
    by (simp add: type_spec_sigs_def)
  then have "''struct '' @ getStructDefinition name fl \<in> set (node_sigs F (GenDeclNode d))"
    using assms(3,4) by (auto simp: node_sigs_def)
  then have "Printf_line filename (''struct '' @ getStructDefinition name fl)
               \<in> set (Stdout (parseFile ParseFile F filename w))"
    using assms(1) GenDeclNode_in_Inspect [OF assms(2)] by (rule node_sig_line_printed [rotated 2])
  then show ?thesis
    by (simp add: getStructDefinition_eq)
qed

theorem struct_signature_rendering_witness:
  "ex_ParseFile ''point.go'' = Inr ex_point_file
   \<and> GenDeclD ex_Point \<in> set (Decls ex_point_file)
   \<and> Tok ex_Point = token_TYPE
   \<and> TypeSpec ''Point'' (StructType [Field [''X'', ''Y''] ex_int]) \<in> set (Specs ex_Point)
   \<and> ''point.go: struct type Point struct { X, Y }\<newline>''
        \<in> set (Stdout (parseFile ex_ParseFile ex_fmt ''point.go'' no_output))"
proof -
  have h1: "ex_ParseFile ''point.go'' = Inr ex_point_file"
    by (simp add: ex_ParseFile_def)
  have h2: "GenDeclD ex_Point \<in> set (Decls ex_point_file)"
    by (simp add: ex_point_file_def)
  have h3: "Tok ex_Point = token_TYPE"
    by (simp add: ex_Point_def)
  have h4: "TypeSpec ''Point'' (StructType [Field [''X'', ''Y''] ex_int]) \<in> set (Specs ex_Point)"
    by (simp add: ex_Point_def)
  from struct_signature_rendering [of ex_ParseFile "''point.go''" ex_point_file ex_Point
      "''Point''" "[Field [''X'', ''Y''] ex_int]" ex_fmt no_output, OF h1 h2 h3 h4]
  have "''point.go: struct type Point struct { X, Y }\<newline>''
        \<in> set (Stdout (parseFile ex_ParseFile ex_fmt ''point.go'' no_output))"
    by (simp add: Printf_line_def field_names_def)
  with h1 h2 h3 h4 show ?thesis
    by blast
qed

text \<open>
  C2 as stated fails: the file with \<^verbatim>\<open>type Point struct { X, Y int }\<close> prints
  \<open>struct type Point struct { X, Y }\<close>, and the line \<open>struct Point { X, Y }\<close> is not
  printed.
\<close>

theorem struct_signature_counterexample:
  "Stdout (parseFile ex_ParseFile ex_fmt ''point.go'' no_output)
     = [''point.go: function Add(a, b) int\<newline>'',
        ''point.go: struct type Point struct { X, Y }\<newline>'']
   \<and> Printf_line ''point.go'' ''struct Point { X, Y }''
        \<notin> set (Stdout (parseFile ex_ParseFile ex_fmt ''point.go'' no_output))"
  by (simp add: point_go_output Printf_line_def)

text \<open>
  C3, as the code has it. The line for a value specification with at least one name in a
  top-level \<open>var\<close> declaration carries the signature
  \<open>var var N1, N2 TYPETEXT VALUETEXT\<close>: the visitor writes \<open>var\<close> before the text of
  \<^verbatim>\<open>getVariableDefinition\<close>, which starts with \<open>var\<close> itself. The type text is empty
  without a type and the value text is empty without values.
\<close>

theorem variable_signature_rendering:
  assumes "ParseFile filename = Inr file"
    and "GenDeclD d \<in> set (Decls file)"
    and "Tok d = token_VAR"
    and "ValueSpec a names ty vals \<in> set (Specs d)"
    and "names \<noteq> []"
  shows "Printf_line filename
           (''var var '' @ Join names '', '' @ '' ''
              @ (case ty of None \<Rightarrow> [] | Some t \<Rightarrow> removeTokenInfo (Sprint F a t))
              @ '' '' @ (if vals = [] then [] else Sprintf_sharp_v F a vals))
         \<in> set (Stdout (parseFile ParseFile F filename w))"
proof -
  let ?s = "''var '' @ getVariableDefinition F a names ty vals"
  have "?s \<in> set (value_spec_sigs F (ValueSpec a names ty vals))"
    by (simp add: value_spec_sigs_def)
  then have "?s \<in> set (node_sigs F (GenDeclNode d))"
    using assms(3,4) by (auto simp: node_sigs_def)
  then have "Printf_line filename ?s \<in> set (Stdout (parseFile ParseFile F filename w))"
    using assms(1) GenDeclNode_in_Inspect [OF assms(2)] by (rule node_sig_line_printed [rotated 2])
  then show ?thesis
    using assms(5) by (simp add: getVariableDefinition_eq)
qed

theorem variable_signature_rendering_witness:
  "ex_ParseFile ''vars.go'' = Inr ex_vars_file
   \<and> GenDeclD ex_vars \<in> set (Decls ex_vars_file)
   \<and> Tok ex_vars = token_VAR
   \<and> ValueSpec 1 [''total'', ''count''] ex_int [] \<in> set (Specs ex_vars)
   \<and> [''total'', ''count''] \<noteq> []
   \<and> ''vars.go: var var total, count int \<newline>''
        \<in> set (Stdout (parseFile ex_ParseFile ex_fmt ''vars.go'' no_output))"
proof -
  have h1: "ex_ParseFile ''vars.go'' = Inr ex_vars_file"
    by (simp add: ex_ParseFile_def)
  have h2: "GenDeclD ex_vars \<in> set (Decls ex_vars_file)"
    by (simp add: ex_vars_file_def)
  have h3: "Tok ex_vars = token_VAR"
    by (simp add: ex_vars_def)
  have h4: "ValueSpec 1 [''total'', ''count''] ex_int [] \<in> set (Specs ex_vars)"
    by (simp add: ex_vars_def)
  have h5: "[''total'', ''count''] \<noteq> []"
    by simp
  from variable_signature_rendering [where ParseFile = ex_ParseFile and filename = "''vars.go''"
      and d = ex_vars and a = 1 and names = "[''total'', ''count'']" and ty = ex_int
      and vals = "[]" and F = ex_fmt and w = no_output, OF h1 h2 h3 h4 h5]
  have "''vars.go: var var total, count int \<newline>''
        \<in> set (Stdout (parseFile ex_ParseFile ex_fmt ''vars.go'' no_output))"
    by (simp add: Printf_line_def ex_int_def ex_fmt_def removeTokenInfo_def TrimPrefix_def
          TrimSuffix_def HasPrefix_def HasSuffix_def)
  with h1 h2 h3 h4 h5 show ?thesis
    by blast
qed

text \<open>
  C3 as stated fails: \<^verbatim>\<open>var total, count int\<close> prints with the keyword twice, and the
  line with the keyword once is not printed.
\<close>

theorem variable_signature_counterexample:
  "Stdout (parseFile ex_ParseFile ex_fmt ''vars.go'' no_output)
     = [''vars.go: var var total, count int \<newline>'',
        ''vars.go: var var limit  []ast.Expr{}\<newline>'',
        ''vars.go: function Div(a, b) int, error\<newline>'',
        ''vars.go: struct type Point struct { X, Y }\<newline>'']
   \<and> Printf_line ''vars.go'' ''var total, count int ''
        \<notin> set (Stdout (parseFile ex_ParseFile ex_fmt ''vars.go'' no_output))"
  by (simp add: vars_go_output Printf_line_def)



text \<open>
  C5, as the code has it. \<^verbatim>\<open>ast.Inspect\<close> visits the whole tree, and the visitor does
  not look at where a node stands. The lines of a file are exactly: the line of every
  function declaration; the line of every struct type specification of a \<open>type\<close>
  declaration that stands anywhere in the file; the line of every value specification
  of a \<open>var\<close> declaration that stands anywhere in the file. Anywhere is the top level
  or any depth below it: function bodies, blocks, function literals. No line comes from
  a \<open>const\<close> or an \<open>import\<close> declaration.
\<close>

theorem nested_declarations_reported:
  assumes "ParseFile filename = Inr file"
  shows "set (Stdout (parseFile ParseFile F filename no_output))
       = {Printf_line filename (''function '' @ getFunctionSignature fn) | fn.
            FuncDecl fn \<in> set (Decls file)}
       \<union> {Printf_line filename (''struct '' @ getStructDefinition name fl) | d name fl.
            declared_in d file \<and> Tok d = token_TYPE
            \<and> TypeSpec name (StructType fl) \<in> set (Specs d)}
       \<union> {Printf_line filename (''var '' @ getVariableDefinition F a names ty vals) |
            d a names ty vals.
            declared_in d file \<and> Tok d = token_VAR
            \<and> ValueSpec a names ty vals \<in> set (Specs d)}"
    (is "?L = ?A \<union> ?B \<union> ?C")
proof -
  have L: "?L = Printf_line filename ` (\<Union>n \<in> set (Inspect file). set (node_sigs F n))"
    using assms by (simp add: set_file_report [unfolded file_report_def] set_file_sigs)
  show ?thesis
  proof (intro set_eqI iffI)
    fix l assume "l \<in> ?L"
    then obtain n s where n: "n \<in> set (Inspect file)" and s: "s \<in> set (node_sigs F n)"
      and l: "l = Printf_line filename s"
      unfolding L by blast
    from s consider
      (f) fn where "n = FuncDeclNode fn" "s = ''function '' @ getFunctionSignature fn"
    | (t) d name fl where "n = GenDeclNode d" "Tok d = token_TYPE"
        "TypeSpec name (StructType fl) \<in> set (Specs d)"
        "s = ''struct '' @ getStructDefinition name fl"
    | (v) d a names ty vals where "n = GenDeclNode d" "Tok d = token_VAR"
        "ValueSpec a names ty vals \<in> set (Specs d)"
        "s = ''var '' @ getVariableDefinition F a names ty vals"
      unfolding set_node_sigs by blast
    then show "l \<in> ?A \<union> ?B \<union> ?C"
    proof cases
      case f
      with n have "FuncDecl fn \<in> set (Decls file)"
        by (simp add: FuncDeclNode_in_Inspect_iff)
      with f l show ?thesis by blast
    next
      case t
      with n have "declared_in d file"
        by (simp add: GenDeclNode_in_Inspect_iff)
      with t l show ?thesis by blast
    next
      case v
      with n have "declared_in d file"
        by (simp add: GenDeclNode_in_Inspect_iff)
      with v l show ?thesis by blast
    qed
  next
    fix l assume "l \<in> ?A \<union> ?B \<union> ?C"
    then consider (a) "l \<in> ?A" | (b) "l \<in> ?B" | (c) "l \<in> ?C" by blast
    then show "l \<in> ?L"
    proof cases
      case a
      then obtain fn where fn: "FuncDecl fn \<in> set (Decls file)"
        and l: "l = Printf_line filename (''function '' @ getFunctionSignature fn)"
        by blast
      have "FuncDeclNode fn \<in> set (Inspect file)"
        using fn by (simp add: FuncDeclNode_in_Inspect_iff)
      moreover have "''function '' @ getFunctionSignature fn \<in> set (node_sigs F (FuncDeclNode fn))"
        unfolding set_node_sigs by blast
      ultimately show ?thesis
        unfolding L l by blast
    next
      case b
      then obtain d name fl where d: "declared_in d file" "Tok d = token_TYPE"
          "TypeSpec name (StructType fl) \<in> set (Specs d)"
        and l: "l = Printf_line filename (''struct '' @ getStructDefinition name fl)"
        by blast
      have "GenDeclNode d \<in> set (Inspect file)"
        using d(1) by (simp add: GenDeclNode_in_Inspect_iff)
      moreover have "''struct '' @ getStructDefinition name fl \<in> set (node_sigs F (GenDeclNode d))"
        unfolding set_node_sigs using d(2,3) by blast
      ultimately show ?thesis
        unfolding L l by blast
    next
      case c
      then obtain d a names ty vals where d: "declared_in d file" "Tok d = token_VAR"
          "ValueSpec a names ty vals \<in> set (Specs d)"
        and l: "l = Printf_line filename (''var '' @ getVariableDefinition F a names ty vals)"
        by blast
      have "GenDeclNode d \<in> set (Inspect file)"
        using d(1) by (simp add: GenDeclNode_in_Inspect_iff)
      moreover have "''var '' @ getVariableDefinition F a names ty vals
                       \<in> set (node_sigs F (GenDeclNode d))"
        unfolding set_node_sigs using d(2,3) by blast
      ultimately show ?thesis
        unfolding L l by blast
    qed
  qed
qed

theorem nested_declarations_reported_witness:
  "ex_ParseFile ''nested.go'' = Inr ex_nested_file
   \<and> declared_in ex_inner_int ex_nested_file
   \<and> declared_in ex_z ex_nested_file
   \<and> GenDeclD ex_z \<notin> set (Decls ex_nested_file)
   \<and> ''nested.go: struct type inner struct { A }\<newline>''
        \<in> set (Stdout (parseFile ex_ParseFile ex_fmt ''nested.go'' no_output))
   \<and> ''nested.go: var var z int \<newline>''
        \<in> set (Stdout (parseFile ex_ParseFile ex_fmt ''nested.go'' no_output))
   \<and> Stdout (parseFile ex_ParseFile ex_fmt ''nested.go'' no_output)
       = [''nested.go: function F() \<newline>'',
          ''nested.go: struct type inner struct { A }\<newline>'',
          ''nested.go: var var q int \<newline>'',
          ''nested.go: var var z int \<newline>'']"
proof -
  let ?out = "Stdout (parseFile ex_ParseFile ex_fmt ''nested.go'' no_output)"
  have h: "ex_ParseFile ''nested.go'' = Inr ex_nested_file"
    by (simp add: ex_ParseFile_def)
  have d1: "declared_in ex_inner_int ex_nested_file"
    and d2: "declared_in ex_z ex_nested_file"
    by (simp_all add: declared_in_def ex_nested_file_def ex_F_def ex_inner_int_def
          ex_inner_string_def ex_q_def ex_z_def ex_int_def)
  have d4: "GenDeclD ex_z \<notin> set (Decls ex_nested_file)"
    by (simp add: ex_nested_file_def ex_z_def)
  note inst = nested_declarations_reported [where ParseFile = ex_ParseFile
      and filename = "''nested.go''" and F = ex_fmt, OF h]
  have t: "Tok ex_inner_int = token_TYPE"
      "TypeSpec ''inner'' (StructType [Field [''A''] ex_int]) \<in> set (Specs ex_inner_int)"
    and v: "Tok ex_z = token_VAR" "ValueSpec 7 [''z''] ex_int [] \<in> set (Specs ex_z)"
    by (simp_all add: ex_inner_int_def ex_z_def)
  have "Printf_line ''nested.go''
          (''struct '' @ getStructDefinition ''inner'' [Field [''A''] ex_int]) \<in> set ?out"
    unfolding inst using d1 t by blast
  then have a: "''nested.go: struct type inner struct { A }\<newline>'' \<in> set ?out"
    by (simp add: Printf_line_def getStructDefinition_def ex_int_def)
  have "Printf_line ''nested.go''
          (''var '' @ getVariableDefinition ex_fmt 7 [''z''] ex_int []) \<in> set ?out"
    unfolding inst using d2 v by blast
  then have b: "''nested.go: var var z int \<newline>'' \<in> set ?out"
    by (simp add: Printf_line_def getVariableDefinition_def ex_int_def ex_fmt_def
          removeTokenInfo_def TrimPrefix_def TrimSuffix_def HasPrefix_def HasSuffix_def)
  have c: "?out = [''nested.go: function F() \<newline>'',
          ''nested.go: struct type inner struct { A }\<newline>'',
          ''nested.go: var var q int \<newline>'',
          ''nested.go: var var z int \<newline>'']"
    by (simp add: prog_defs ex_defs)
  from h d1 d2 d4 a b c show ?thesis
    by blast
qed

text \<open>
  C5 as stated fails: the local \<open>var\<close> group and the local struct type of the function
  \<open>Run\<close> are both reported.
\<close>

theorem local_declarations_counterexample:
  "FuncDecl ex_Run \<in> set (Decls ex_local_file)
   \<and> Body ex_Run = Some [DeclStmt (GenDecl token_VAR [ValueSpec 3 [''x''] ex_int []]),
                          DeclStmt (GenDecl token_TYPE
                            [TypeSpec ''pair'' (StructType [Field [''L'', ''R''] ex_int])])]
   \<and> Stdout (parseFile ex_ParseFile ex_fmt ''local.go'' no_output)
       = [''local.go: function Run() \<newline>'',
          ''local.go: var var x int \<newline>'',
          ''local.go: struct type pair struct { L, R }\<newline>'']"
  by (simp add: local_go_output) (simp add: ex_local_file_def ex_Run_def)

text \<open>
  C6, as the code has it. The line for a top-level function declaration carries the
  signature \<open>function NAME(P1, P2, ...) R1, R2, ...\<close>: the parameter names joined by a
  comma and a space, then the names of the result types that are identifiers, joined by a
  comma and a space as well. An empty list renders as the empty string.
\<close>

theorem function_signature_rendering:
  assumes "ParseFile filename = Inr file"
    and "FuncDecl fn \<in> set (Decls file)"
  shows "Printf_line filename
           (''function '' @ Name fn @ ''('' @ Join (param_names fn) '', '' @ '') ''
              @ Join (result_names fn) '', '')
         \<in> set (Stdout (parseFile ParseFile F filename w))"
proof -
  have "''function '' @ getFunctionSignature fn \<in> set (node_sigs F (FuncDeclNode fn))"
    by (simp add: node_sigs_def)
  then have "Printf_line filename (''function '' @ getFunctionSignature fn)
               \<in> set (Stdout (parseFile ParseFile F filename w))"
    using assms(1) FuncDeclNode_in_Inspect [OF assms(2)] by (rule node_sig_line_printed [rotated 2])
  then show ?thesis
    by (simp add: getFunctionSignature_eq)
qed

theorem function_signature_rendering_witness:
  "ex_ParseFile ''vars.go'' = Inr ex_vars_file
   \<and> FuncDecl ex_Div \<in> set (Decls ex_vars_file)
   \<and> ''vars.go: function Div(a, b) int, error\<newline>''
        \<in> set (Stdout (parseFile ex_ParseFile ex_fmt ''vars.go'' no_output))"
proof -
  have h1: "ex_ParseFile ''vars.go'' = Inr ex_vars_file"
    by (simp add: ex_ParseFile_def)
  have h2: "FuncDecl ex_Div \<in> set (Decls ex_vars_file)"
    by (simp add: ex_vars_file_def)
  from function_signature_rendering [of ex_ParseFile "''vars.go''" ex_vars_file ex_Div
      ex_fmt no_output, OF h1 h2]
  have "''vars.go: function Div(a, b) int, error\<newline>''
        \<in> set (Stdout (parseFile ex_ParseFile ex_fmt ''vars.go'' no_output))"
    by (simp add: Printf_line_def param_names_def result_names_def field_names_def
          result_type_name_def ex_Div_def ex_int_def)
  with h1 h2 show ?thesis
    by blast
qed

text \<open>
  C6 as stated fails: \<^verbatim>\<open>func Div(a, b int) (int, error)\<close> renders its results as
  \<open>int, error\<close>, not as \<open>int error\<close>.
\<close>

theorem function_signature_counterexample:
  "FuncDecl ex_Div \<in> set (Decls ex_vars_file)
   \<and> ''function '' @ getFunctionSignature ex_Div = ''function Div(a, b) int, error''
   \<and> ''function '' @ getFunctionSignature ex_Div \<noteq> ''function Div(a, b) int error''
   \<and> Printf_line ''vars.go'' ''function Div(a, b) int error''
        \<notin> set (Stdout (parseFile ex_ParseFile ex_fmt ''vars.go'' no_output))"
  by (simp add: vars_go_output Printf_line_def getFunctionSignature_def ex_Div_def ex_int_def
        ex_vars_file_def)

text \<open>
  C7, as the code has it. A file that fails to parse contributes exactly one line,
  \<open>PATH: ERROR\<close>, written with \<^verbatim>\<open>fmt.Printf\<close> to standard output, the stream of the
  report; the entries before and after it are processed as without it, and nothing is
  written to standard error.
\<close>

theorem parse_failure_isolated:
  assumes "ParseFile (path e) = Inl msg"
    and "err e = None"
    and "\<not> info_IsDir e"
    and "HasSuffix (info_Name e) ''.go''"
  shows "Stdout (run ParseFile F (es1 @ e # es2) w)
           = Stdout (run ParseFile F es1 w) @ [Printf_line (path e) msg]
               @ concat (map (entry_report ParseFile F) es2)
       \<and> Stderr (run ParseFile F (es1 @ e # es2) w) = Stderr w"
proof -
  have "entry_report ParseFile F e = [Printf_line (path e) msg]"
    using assms by (simp add: entry_report_def walk_fn_def parseFile_def print_def no_output_def)
  then show ?thesis
    by (simp add: Stdout_run_append)
qed

theorem parse_failure_isolated_witness:
  "ex_ParseFile (path (ex_entry ''bad.go'')) = Inl ''1:1: expected package, found EOF''
   \<and> err (ex_entry ''bad.go'') = None
   \<and> \<not> info_IsDir (ex_entry ''bad.go'')
   \<and> HasSuffix (info_Name (ex_entry ''bad.go'')) ''.go''
   \<and> Stdout (run ex_ParseFile ex_fmt ([] @ ex_entry ''bad.go'' # [ex_entry ''point.go'']) no_output)
       = [''bad.go: 1:1: expected package, found EOF\<newline>'',
          ''point.go: function Add(a, b) int\<newline>'',
          ''point.go: struct type Point struct { X, Y }\<newline>'']"
proof -
  have h1: "ex_ParseFile (path (ex_entry ''bad.go'')) = Inl ''1:1: expected package, found EOF''"
    by (simp add: ex_ParseFile_def ex_entry_def)
  have h2: "err (ex_entry ''bad.go'') = None"
    and h3: "\<not> info_IsDir (ex_entry ''bad.go'')"
    and h4: "HasSuffix (info_Name (ex_entry ''bad.go'')) ''.go''"
    by (simp_all add: ex_entry_def HasSuffix_def)
  have rep: "entry_report ex_ParseFile ex_fmt (ex_entry ''point.go'')
               = [''point.go: function Add(a, b) int\<newline>'',
                  ''point.go: struct type Point struct { X, Y }\<newline>'']"
    by (simp add: entry_report_def prog_defs ex_defs)
  have pth: "path (ex_entry ''bad.go'') = ''bad.go''"
    by (simp add: ex_entry_def)
  from parse_failure_isolated [where ParseFile = ex_ParseFile and e = "ex_entry ''bad.go''"
      and F = ex_fmt and ?es1.0 = "[]" and ?es2.0 = "[ex_entry ''point.go'']" and w = no_output,
      OF h1 h2 h3 h4]
  have e: "Stdout (run ex_ParseFile ex_fmt ([] @ ex_entry ''bad.go'' # [ex_entry ''point.go'']) no_output)
       = Stdout (run ex_ParseFile ex_fmt [] no_output)
           @ [Printf_line (path (ex_entry ''bad.go'')) ''1:1: expected package, found EOF'']
           @ concat (map (entry_report ex_ParseFile ex_fmt) [ex_entry ''point.go''])"
    by blast
  have "Stdout (run ex_ParseFile ex_fmt ([] @ ex_entry ''bad.go'' # [ex_entry ''point.go'']) no_output)
       = [''bad.go: 1:1: expected package, found EOF\<newline>'',
          ''point.go: function Add(a, b) int\<newline>'',
          ''point.go: struct type Point struct { X, Y }\<newline>'']"
    unfolding e by (simp add: rep run_def no_output_def Printf_line_def pth)
  with h1 h2 h3 h4 show ?thesis
    by blast
qed

text \<open>
  C7 as stated fails: after a run over an invalid and a valid file the error stream is
  empty; the diagnostic line is the first line of standard output.
\<close>

theorem parse_failure_counterexample:
  "ex_ParseFile ''bad.go'' = Inl ''1:1: expected package, found EOF''
   \<and> Stderr (run ex_ParseFile ex_fmt [ex_entry ''bad.go'', ex_entry ''point.go''] no_output) = []
   \<and> Stdout (run ex_ParseFile ex_fmt [ex_entry ''bad.go'', ex_entry ''point.go''] no_output)
       = [''bad.go: 1:1: expected package, found EOF\<newline>'',
          ''point.go: function Add(a, b) int\<newline>'',
          ''point.go: struct type Point struct { X, Y }\<newline>'']"
  by (simp add: prog_defs ex_defs)

text \<open>
  C8. Within one file the report keeps the order of first sight. When no signature of
  the file repeats, the lines of the file are the lines of its top-level declarations in
  the order of the declarations, each declaration contributing the lines met in the
  depth-first traversal of its subtree; functions, types and variables interleave as
  they are declared.
\<close>

theorem order_preserved:
  assumes "ParseFile filename = Inr file"
    and "distinct (file_sigs F file)"
  shows "Stdout (parseFile ParseFile F filename w)
           = Stdout w
             @ concat (map (\<lambda>d. map (Printf_line filename)
                                 (concat (map (node_sigs F) (inspect_decl d))))
                        (Decls file))"
proof -
  have "file_sigs F file = concat (map (\<lambda>d. concat (map (node_sigs F) (inspect_decl d))) (Decls file))"
    by (simp add: file_sigs_def Inspect_def node_sigs_def concat_map_concat comp_def)
  then show ?thesis
    using assms by (simp add: Stdout_parseFile_ok first_occurrences_distinct map_concat comp_def)
qed

theorem order_preserved_witness:
  "ex_ParseFile ''vars.go'' = Inr ex_vars_file
   \<and> distinct (file_sigs ex_fmt ex_vars_file)
   \<and> Decls ex_vars_file = [GenDeclD ex_vars, FuncDecl ex_Div, GenDeclD ex_Point]
   \<and> Stdout (parseFile ex_ParseFile ex_fmt ''vars.go'' no_output)
       = [''vars.go: var var total, count int \<newline>'',
          ''vars.go: var var limit  []ast.Expr{}\<newline>'']
         @ [''vars.go: function Div(a, b) int, error\<newline>'']
         @ [''vars.go: struct type Point struct { X, Y }\<newline>'']"
proof -
  have h1: "ex_ParseFile ''vars.go'' = Inr ex_vars_file"
    by (simp add: ex_ParseFile_def)
  have sigs: "file_sigs ex_fmt ex_vars_file
                = [''var var total, count int '', ''var var limit  []ast.Expr{}'',
                   ''function Div(a, b) int, error'', ''struct type Point struct { X, Y }'']"
    by (simp add: sig_defs prog_defs ex_defs)
  have h2: "distinct (file_sigs ex_fmt ex_vars_file)"
    by (simp add: sigs)
  have ds: "Decls ex_vars_file = [GenDeclD ex_vars, FuncDecl ex_Div, GenDeclD ex_Point]"
    by (simp add: ex_vars_file_def)
  have b1: "map (Printf_line ''vars.go'') (concat (map (node_sigs ex_fmt) (inspect_decl (GenDeclD ex_vars))))
              = [''vars.go: var var total, count int \<newline>'',
                 ''vars.go: var var limit  []ast.Expr{}\<newline>'']"
   and b2: "map (Printf_line ''vars.go'') (concat (map (node_sigs ex_fmt) (inspect_decl (FuncDecl ex_Div))))
              = [''vars.go: function Div(a, b) int, error\<newline>'']"
   and b3: "map (Printf_line ''vars.go'') (concat (map (node_sigs ex_fmt) (inspect_decl (GenDeclD ex_Point))))
              = [''vars.go: struct type Point struct { X, Y }\<newline>'']"
    by (simp_all add: sig_defs prog_defs ex_defs)
  from order_preserved [of ex_ParseFile "''vars.go''" ex_vars_file ex_fmt no_output, OF h1 h2]
  have "Stdout (parseFile ex_ParseFile ex_fmt ''vars.go'' no_output)
       = [''vars.go: var var total, count int \<newline>'',
          ''vars.go: var var limit  []ast.Expr{}\<newline>'']
         @ [''vars.go: function Div(a, b) int, error\<newline>'']
         @ [''vars.go: struct type Point struct { X, Y }\<newline>'']"
    by (simp only: ds list.map concat.simps b1 b2 b3 no_output_def streams.simps append_Nil
          append_Nil2 append_assoc)
  with h1 h2 ds show ?thesis
    by blast
qed

text \<open>
  C9, as the code has it. A signature shows the kind of the declaration and the part of
  it that the renderer reads: of a function the name, the parameter names and the
  identifier result types; of a struct type the name and the names of the named fields;
  of a value specification the names and the text of type and values. For declarations
  whose names are identifiers, two declarations that the traversal of a file meets get
  the same line exactly when they are of the same kind and agree on that part; what
  they differ in elsewhere (receiver, parameter and field types, embedded fields, other
  result types, bodies) is not shown, so such declarations collide. The line of a
  declaration stands exactly once in the report of the file: declarations that collide
  share one line.
\<close>

theorem signature_collisions:
  assumes "ParseFile filename = Inr file"
    and "declares file D1" "declares file D2"
    and "plain_declaration D1" "plain_declaration D2"
  shows "((lines_for F filename D1 = lines_for F filename D2)
            = (rendered_part F D1 = rendered_part F D2))
       \<and> (\<exists>l. lines_for F filename D1 = [l]
              \<and> count_list (Stdout (parseFile ParseFile F filename no_output)) l = 1)
       \<and> (\<exists>l. lines_for F filename D2 = [l]
              \<and> count_list (Stdout (parseFile ParseFile F filename no_output)) l = 1)"
proof -
  have rep: "Stdout (parseFile ParseFile F filename no_output)
               = map (Printf_line filename) (first_occurrences (file_sigs F file))"
    using assms(1) by (simp add: Stdout_parseFile_ok no_output_def)
  have dist: "distinct (map (Printf_line filename) (first_occurrences (file_sigs F file)))"
    by (simp add: distinct_map inj_on_subset [OF inj_Printf_line])
  have once: "count_list (Stdout (parseFile ParseFile F filename no_output))
                (Printf_line filename (signature_of F D)) = 1"
    if "declares file D" for D
  proof -
    have "Printf_line filename (signature_of F D)
            \<in> set (map (Printf_line filename) (first_occurrences (file_sigs F file)))"
      using declares_sig [OF that, of F] by simp
    with dist show ?thesis
      unfolding rep by (rule count_list_distinct)
  qed
  have "(lines_for F filename D1 = lines_for F filename D2)
          = (signature_of F D1 = signature_of F D2)"
    using inj_Printf_line [of filename] by (auto simp: lines_for_eq inj_def)
  then have iff: "(lines_for F filename D1 = lines_for F filename D2)
                    = (rendered_part F D1 = rendered_part F D2)"
    using signature_of_inj [OF assms(4,5)] by simp
  from iff once [OF assms(2)] once [OF assms(3)] show ?thesis
    by (simp add: lines_for_eq)
qed

theorem signature_collisions_witness:
  "ex_ParseFile ''nested.go'' = Inr ex_nested_file
   \<and> declares ex_nested_file (RecordDeclaration ''inner'' [Field [''A''] ex_int])
   \<and> declares ex_nested_file (RecordDeclaration ''inner'' [Field [''A''] (Some (Ident ''string''))])
   \<and> declares ex_nested_file (VariableDeclaration 6 [''q''] ex_int [])
   \<and> plain_declaration (RecordDeclaration ''inner'' [Field [''A''] ex_int])
   \<and> plain_declaration (RecordDeclaration ''inner'' [Field [''A''] (Some (Ident ''string''))])
   \<and> plain_declaration (VariableDeclaration 6 [''q''] ex_int [])
   \<and> lines_for ex_fmt ''nested.go'' (RecordDeclaration ''inner'' [Field [''A''] ex_int])
       = lines_for ex_fmt ''nested.go''
           (RecordDeclaration ''inner'' [Field [''A''] (Some (Ident ''string''))])
   \<and> lines_for ex_fmt ''nested.go'' (RecordDeclaration ''inner'' [Field [''A''] ex_int])
       \<noteq> lines_for ex_fmt ''nested.go'' (VariableDeclaration 6 [''q''] ex_int [])
   \<and> count_list (Stdout (parseFile ex_ParseFile ex_fmt ''nested.go'' no_output))
        ''nested.go: struct type inner struct { A }\<newline>'' = 1"
proof -
  let ?D1 = "RecordDeclaration ''inner'' [Field [''A''] ex_int]"
  let ?D2 = "RecordDeclaration ''inner'' [Field [''A''] (Some (Ident ''string''))]"
  let ?D3 = "VariableDeclaration 6 [''q''] ex_int []"
  have h: "ex_ParseFile ''nested.go'' = Inr ex_nested_file"
    by (simp add: ex_ParseFile_def)
  have d: "declares ex_nested_file ?D1" "declares ex_nested_file ?D2"
      "declares ex_nested_file ?D3"
    by (simp_all add: declares_def Inspect_def inspect_field_list_def ex_nested_file_def
          ex_F_def ex_inner_int_def ex_inner_string_def ex_q_def ex_z_def ex_int_def)
  have p: "plain_declaration ?D1" "plain_declaration ?D2" "plain_declaration ?D3"
    by (simp_all add: plain_name_def field_names_def)
  note same = signature_collisions [where ParseFile = ex_ParseFile and filename = "''nested.go''"
      and F = ex_fmt and ?D1.0 = ?D1 and ?D2.0 = ?D2, OF h d(1) d(2) p(1) p(2)]
  note other = signature_collisions [where ParseFile = ex_ParseFile and filename = "''nested.go''"
      and F = ex_fmt and ?D1.0 = ?D1 and ?D2.0 = ?D3, OF h d(1) d(3) p(1) p(3)]
  have r: "rendered_part ex_fmt ?D1 = rendered_part ex_fmt ?D2"
    by (simp add: field_names_def)
  have r': "rendered_part ex_fmt ?D1 \<noteq> rendered_part ex_fmt ?D3"
    by simp
  from same r have a: "lines_for ex_fmt ''nested.go'' ?D1 = lines_for ex_fmt ''nested.go'' ?D2"
    by blast
  from other r' have b: "lines_for ex_fmt ''nested.go'' ?D1 \<noteq> lines_for ex_fmt ''nested.go'' ?D3"
    by blast
  have l: "lines_for ex_fmt ''nested.go'' ?D1 = [''nested.go: struct type inner struct { A }\<newline>'']"
    by (simp add: lines_for_eq Printf_line_def getStructDefinition_def ex_int_def)
  from same obtain l' where "lines_for ex_fmt ''nested.go'' ?D1 = [l']"
    and "count_list (Stdout (parseFile ex_ParseFile ex_fmt ''nested.go'' no_output)) l' = 1"
    by blast
  with l have c: "count_list (Stdout (parseFile ex_ParseFile ex_fmt ''nested.go'' no_output))
        ''nested.go: struct type inner struct { A }\<newline>'' = 1"
    by simp
  from h d p a b c show ?thesis
    by blast
qed

text \<open>
  C9 as stated fails: the methods \<open>Get\<close> of \<open>*S\<close> and of \<open>*T\<close> are different
  declarations with the same signature, and the file that declares both prints one line
  for the two.
\<close>

theorem signature_collisions_counterexample:
  "ex_GetS \<noteq> ex_GetT
   \<and> ''function '' @ getFunctionSignature ex_GetS = ''function '' @ getFunctionSignature ex_GetT
   \<and> Decls ex_dup_file = [FuncDecl ex_GetS, FuncDecl ex_Add, FuncDecl ex_GetT]
   \<and> Stdout (parseFile ex_ParseFile ex_fmt ''dup.go'' no_output)
       = [''dup.go: function Get(k) int\<newline>'', ''dup.go: function Add(a, b) int\<newline>'']"
  by (simp add: prog_defs ex_defs)

text \<open>
  C10. The rendering of a function declaration is built from its name, the names of its
  own parameter list and the identifier result types; the receiver is not read. Two
  methods that agree on those three render the same signature, whatever their
  receivers.
\<close>

theorem receiver_not_rendered:
  assumes "Name m1 = Name m2"
    and "param_names m1 = param_names m2"
    and "result_names m1 = result_names m2"
  shows "getFunctionSignature m1 = getFunctionSignature m2
       \<and> getFunctionSignature m1
           = Name m1 @ ''('' @ Join (param_names m1) '', '' @ '') ''
               @ Join (result_names m1) '', ''
       \<and> getFunctionSignature (m1\<lparr>Recv := r\<rparr>) = getFunctionSignature m1"
  using assms
  by (simp add: getFunctionSignature_eq param_names_def result_names_def)

theorem receiver_not_rendered_witness:
  "Name ex_GetS = Name ex_GetT
   \<and> param_names ex_GetS = param_names ex_GetT
   \<and> result_names ex_GetS = result_names ex_GetT
   \<and> Recv ex_GetS \<noteq> Recv ex_GetT
   \<and> getFunctionSignature ex_GetS = getFunctionSignature ex_GetT
   \<and> getFunctionSignature ex_GetS = ''Get(k) int''"
proof -
  have h1: "Name ex_GetS = Name ex_GetT"
    by (simp add: ex_GetS_def ex_GetT_def)
  have h2: "param_names ex_GetS = param_names ex_GetT"
    by (simp add: ex_GetS_def ex_GetT_def param_names_def)
  have h3: "result_names ex_GetS = result_names ex_GetT"
    by (simp add: ex_GetS_def ex_GetT_def result_names_def)
  have h4: "Recv ex_GetS \<noteq> Recv ex_GetT"
    by (simp add: ex_GetS_def ex_GetT_def)
  note inst = receiver_not_rendered [of ex_GetS ex_GetT, OF h1 h2 h3]
  from inst have e: "getFunctionSignature ex_GetS = getFunctionSignature ex_GetT"
    by blast
  from inst have "getFunctionSignature ex_GetS
      = Name ex_GetS @ ''('' @ Join (param_names ex_GetS) '', '' @ '') ''
          @ Join (result_names ex_GetS) '', ''"
    by blast
  then have "getFunctionSignature ex_GetS = ''Get(k) int''"
    by (simp add: param_names_def result_names_def field_names_def result_type_name_def
          ex_GetS_def ex_int_def)
  with h1 h2 h3 h4 e show ?thesis
    by blast
qed

end
